theory Spec2Isabelle
  imports Complex_Main "HOL-Library.Word"
begin

section \<open>Shallow embedding of \<^verbatim>\<open>train_interpreter.py\<close>\<close>

text \<open>
  The script prepares a table of per-pixel features and labels (\<^verbatim>\<open>prepare_data\<close>),
  trains an ensemble of pixel classifiers with an early-stopping rule (\<^verbatim>\<open>train\<close>),
  and evaluates the ensemble on a test set (\<^verbatim>\<open>evaluation\<close>). The entry point
  decides from the files \<^verbatim>\<open>model_<i>.pth\<close> of the experiment directory which
  members still have to be trained.

  The feature extractor, the dataset loader, the classifier, the loss and
  \<^verbatim>\<open>torch.randn\<close> live outside the file; they are parameters of the model.
  Python integers are \<open>int\<close>, the float losses and scores are \<open>real\<close>, the
  \<^verbatim>\<open>uint8\<close> label accumulator holds \<open>8 word\<close>.
\<close>

subsection \<open>Configuration and errors\<close>

text \<open>
  The options dictionary \<^verbatim>\<open>args\<close>/\<^verbatim>\<open>opts\<close>. \<open>dim\<close> is the list
  \<^verbatim>\<open>[H, W, D]\<close>; \<open>share_noise\<close> is \<open>None\<close> when the key is absent.
\<close>

record args =
  number_class :: int
  ignore_label :: int
  dim :: "nat list"
  image_size :: nat
  share_noise :: "bool option"
  seed :: int
  start_model_num :: int
  model_num :: int

datatype error = ZeroDivisionError | FileNotFoundError

subsection \<open>Early stopping: the loops of \<^verbatim>\<open>train\<close> for one ensemble member\<close>

text \<open>
  The four variables set before the epoch loop (lines 139--142). The losses that the
  optimiser steps produce are given by \<open>losses\<close>: \<open>losses epoch\<close> is the list of
  \<^verbatim>\<open>loss.item()\<close> values of the batches of that epoch, in the order of the loader.
\<close>

record es_state =
  iteration :: nat
  break_count :: nat
  best_loss :: real
  stop_sign :: nat

definition es_init :: es_state where
  "es_init = \<lparr>iteration = 0, break_count = 0, best_loss = 10000000, stop_sign = 0\<rparr>"

text \<open>
  One pass through the body of the batch loop (lines 145--170). The second component
  says whether the body ended in \<^verbatim>\<open>break\<close>.
\<close>

definition batch_body :: "nat \<Rightarrow> real \<Rightarrow> es_state \<Rightarrow> es_state \<times> bool" where
  "batch_body epoch loss s =
     (let s1 = s\<lparr>iteration := iteration s + 1\<rparr> in
      if epoch > 3 then
        (let s2 = (if loss < best_loss s1
                   then s1\<lparr>best_loss := loss, break_count := 0\<rparr>
                   else s1\<lparr>break_count := break_count s1 + 1\<rparr>) in
         if break_count s2 > 50 then (s2\<lparr>stop_sign := 1\<rparr>, True) else (s2, False))
      else (s1, False))"

text \<open>\<^verbatim>\<open>for X_batch, y_batch in train_loader\<close> (line 144).\<close>

fun batch_loop :: "nat \<Rightarrow> real list \<Rightarrow> es_state \<Rightarrow> es_state" where
  "batch_loop epoch [] s = s"
| "batch_loop epoch (loss # rest) s =
     (case batch_body epoch loss s of
        (s', brk) \<Rightarrow> if brk then s' else batch_loop epoch rest s')"

text \<open>\<^verbatim>\<open>for epoch in range(100)\<close> with the test of \<^verbatim>\<open>stop_sign\<close> after each epoch
  (lines 143, 172--173).\<close>

fun epoch_loop :: "(nat \<Rightarrow> real list) \<Rightarrow> nat list \<Rightarrow> es_state \<Rightarrow> es_state" where
  "epoch_loop losses [] s = s"
| "epoch_loop losses (epoch # rest) s =
     (let s' = batch_loop epoch (losses epoch) s in
      if stop_sign s' = 1 then s' else epoch_loop losses rest s')"

definition train_member :: "(nat \<Rightarrow> real list) \<Rightarrow> es_state" where
  "train_member losses = epoch_loop losses [0..<100] es_init"

subsection \<open>The ensemble: which members are trained, which files are written\<close>

text \<open>
  The experiment directory is the set of indices \<open>i\<close> for which
  \<^verbatim>\<open>model_<i>.pth\<close> exists. \<^verbatim>\<open>torch.save\<close> to \<^verbatim>\<open>model_<i>.pth\<close> adds \<open>i\<close>
  (or overwrites the file when it is there already).
\<close>

type_synonym files = "int set"

text \<open>
  The member loop of \<^verbatim>\<open>train\<close> (lines 128--179): member \<open>m\<close> is trained with the
  losses \<open>losses m\<close> and saved. The result lists the members trained, in order, with
  the state their training ended in, and the directory afterwards.
\<close>

fun member_loop ::
  "(int \<Rightarrow> nat \<Rightarrow> real list) \<Rightarrow> int list \<Rightarrow> (int \<times> es_state) list \<times> files
     \<Rightarrow> (int \<times> es_state) list \<times> files" where
  "member_loop losses [] st = st"
| "member_loop losses (m # ms) (trained, fs) =
     member_loop losses ms (trained @ [(m, train_member (losses m))], insert m fs)"

definition train ::
  "args \<Rightarrow> (int \<Rightarrow> nat \<Rightarrow> real list) \<Rightarrow> files \<Rightarrow> (int \<times> es_state) list \<times> files" where
  "train a losses fs = member_loop losses [start_model_num a..model_num a - 1] ([], fs)"

text \<open>Lines 209--210: the list of \<^verbatim>\<open>os.path.exists\<close> results.\<close>

definition pretrained :: "args \<Rightarrow> files \<Rightarrow> bool list" where
  "pretrained opts fs = map (\<lambda>i. i \<in> fs) [0..model_num opts - 1]"

text \<open>Python's \<^verbatim>\<open>sum\<close> of a list of booleans and \<^verbatim>\<open>all\<close>.\<close>

definition py_sum_bools :: "bool list \<Rightarrow> int" where
  "py_sum_bools bs = int (length (filter (\<lambda>b. b) bs))"

definition py_all :: "bool list \<Rightarrow> bool" where
  "py_all bs = list_all (\<lambda>b. b) bs"

text \<open>Lines 212--215 of the entry point: the training phase of one run.\<close>

definition main_train ::
  "args \<Rightarrow> (int \<Rightarrow> nat \<Rightarrow> real list) \<Rightarrow> files \<Rightarrow> (int \<times> es_state) list \<times> files" where
  "main_train opts losses fs =
     (if \<not> py_all (pretrained opts fs)
      then train (opts\<lparr>start_model_num := py_sum_bools (pretrained opts fs)\<rparr>) losses fs
      else ([], fs))"

text \<open>
  Modelled from the spec: \<^verbatim>\<open>load_ensemble\<close> of \<^verbatim>\<open>src/pixel_classifier.py\<close>, which is
  not part of the sources at hand. It loads all \<open>model_num\<close> member files in index
  order and fails if any file is absent.
\<close>

definition load_ensemble :: "args \<Rightarrow> files \<Rightarrow> error + int list" where
  "load_ensemble opts fs =
     (if list_all (\<lambda>i. i \<in> fs) [0..model_num opts - 1]
      then Inr [0..model_num opts - 1] else Inl FileNotFoundError)"

text \<open>
  One run of the entry point up to the loading of the ensemble (lines 208--218). The
  evaluation that follows does not touch the model files.
\<close>

definition main_run ::
  "args \<Rightarrow> (int \<Rightarrow> nat \<Rightarrow> real list) \<Rightarrow> files
     \<Rightarrow> error + ((int \<times> es_state) list \<times> files)" where
  "main_run opts losses fs =
     (case main_train opts losses fs of
        (trained, fs') \<Rightarrow>
          (case load_ensemble opts fs' of
             Inl e \<Rightarrow> Inl e
           | Inr models \<Rightarrow> Inr (trained, fs')))"

text \<open>A configuration with three ensemble members, for concrete runs.\<close>

definition resume_opts :: args where
  "resume_opts = \<lparr>number_class = 3, ignore_label = 255, dim = [4, 4, 3], image_size = 4,
     share_noise = Some True, seed = 0, start_model_num = 0, model_num = 3\<rparr>"

subsection \<open>The steps of one member's training, in order\<close>

text \<open>
  All optimiser steps that the two loops would run if nothing stopped them, as pairs
  (epoch, loss), epoch by epoch and batch by batch.
\<close>

definition schedule :: "(nat \<Rightarrow> real list) \<Rightarrow> (nat \<times> real) list" where
  "schedule losses = concat (map (\<lambda>e. map (Pair e) (losses e)) [0..<100])"

text \<open>
  The two nested loops as one loop over the steps: the \<^verbatim>\<open>break\<close> of the batch loop
  together with the test of \<^verbatim>\<open>stop_sign\<close> ends it. It is shown equal to the nested
  loops below (\<open>train_member_flat\<close>).
\<close>

fun flat_loop :: "(nat \<times> real) list \<Rightarrow> es_state \<Rightarrow> es_state" where
  "flat_loop [] s = s"
| "flat_loop ((e, loss) # rest) s =
     (case batch_body e loss s of (s', brk) \<Rightarrow> if brk then s' else flat_loop rest s')"

text \<open>
  The early-stopping policy in the words of the specification, without any stopping:
  the pair (bestLoss, breakCount) is untouched during epochs 0 to 3; afterwards a loss
  below bestLoss replaces it and resets breakCount, any other loss increments
  breakCount. \<open>spec_track\<close> runs it from the initial values over a list of steps.
\<close>

definition spec_step :: "real \<times> nat \<Rightarrow> nat \<times> real \<Rightarrow> real \<times> nat" where
  "spec_step st x =
     (case st of (best, bc) \<Rightarrow> case x of (e, loss) \<Rightarrow>
        if e > 3 then (if loss < best then (loss, 0) else (best, bc + 1)) else (best, bc))"

definition spec_track :: "(nat \<times> real) list \<Rightarrow> real \<times> nat" where
  "spec_track xs = foldl spec_step (10000000, 0) xs"

text \<open>
  Two loss sequences with one batch per epoch. Both decrease strictly during epochs 0
  to 3. The first stays at 1 from epoch 4 on. The second stays at 1 for the 51 steps of
  epochs 4 to 54 and is 1/2 from epoch 55 on.
\<close>

definition flat_losses :: "nat \<Rightarrow> real list" where
  "flat_losses e = (if e < 4 then [10 - real e] else [1])"

definition flat51_losses :: "nat \<Rightarrow> real list" where
  "flat51_losses e = (if e < 4 then [10 - real e] else if e < 55 then [1] else [1 / 2])"

subsection \<open>Tensors as nested lists\<close>

text \<open>
  A tensor is a nested list, outermost axis first. \<^verbatim>\<open>torch.zeros\<close> for a shape of
  three and of two axes; the label accumulator has \<^verbatim>\<open>dtype=torch.uint8\<close>.
\<close>

fun zeros3 :: "nat list \<Rightarrow> real list list list" where
  "zeros3 [a, b, c] = replicate a (replicate b (replicate c 0))"
| "zeros3 _ = []"

fun zeros2_uint8 :: "nat list \<Rightarrow> 8 word list list" where
  "zeros2_uint8 [a, b] = replicate a (replicate b 0)"
| "zeros2_uint8 _ = []"

text \<open>Storing an integer label into the \<^verbatim>\<open>uint8\<close> accumulator keeps its low 8 bits.\<close>

definition to_uint8 :: "int \<Rightarrow> 8 word" where
  "to_uint8 v = word_of_int v"

text \<open>\<^verbatim>\<open>permute(1,0,2,3)\<close> of a tensor whose axis 1 has size \<open>d\<close>.\<close>

definition permute_1023 :: "nat \<Rightarrow> 'a list list list list \<Rightarrow> 'a list list list list" where
  "permute_1023 d X = map (\<lambda>j. map (\<lambda>x. x ! j) X) [0..<d]"

text \<open>\<^verbatim>\<open>reshape(d, -1)\<close> of a tensor whose axis 0 has size \<open>d\<close>: every slice along
  axis 0 is flattened in row-major order.\<close>

definition reshape_rows :: "'a list list list list \<Rightarrow> 'a list list" where
  "reshape_rows P = map (\<lambda>p. concat (map concat p)) P"

text \<open>\<^verbatim>\<open>permute(1,0)\<close> of a matrix whose axis 1 has size \<open>m\<close>.\<close>

definition permute_10 :: "nat \<Rightarrow> 'a list list \<Rightarrow> 'a list list" where
  "permute_10 m R = map (\<lambda>k. map (\<lambda>r. r ! k) R) [0..<m]"

text \<open>\<^verbatim>\<open>flatten()\<close> of a tensor of three axes.\<close>

definition flatten3 :: "'a list list list \<Rightarrow> 'a list" where
  "flatten3 y = concat (map concat y)"

text \<open>Indexing with a boolean mask along axis 0: \<^verbatim>\<open>X[mask]\<close>.\<close>

definition mask_select :: "'a list \<Rightarrow> bool list \<Rightarrow> 'a list" where
  "mask_select xs keep = map fst (filter snd (zip xs keep))"

subsection \<open>Sparse-label suppression (lines 67--71)\<close>

text \<open>\<^verbatim>\<open>(label == target).sum()\<close> and \<^verbatim>\<open>label[label == target] = v\<close> on a label map.\<close>

definition count_label :: "int list list \<Rightarrow> int \<Rightarrow> nat" where
  "count_label label target = sum_list (map (\<lambda>row. length (filter (\<lambda>x. x = target) row)) label)"

definition relabel :: "int list list \<Rightarrow> int \<Rightarrow> int \<Rightarrow> int list list" where
  "relabel label target v = map (map (\<lambda>x. if x = target then v else x)) label"

text \<open>The body of \<^verbatim>\<open>for target in range(args['number_class'])\<close> and the loop.\<close>

definition suppress_target :: "args \<Rightarrow> int list list \<Rightarrow> int \<Rightarrow> int list list" where
  "suppress_target a label target =
     (if target = ignore_label a then label
      else if 0 < count_label label target \<and> count_label label target < 20
           then relabel label target (ignore_label a)
           else label)"

definition suppress :: "args \<Rightarrow> int list list \<Rightarrow> int list list" where
  "suppress a label = foldl (suppress_target a) label [0..number_class a - 1]"

subsection \<open>Shared noise (lines 54--59 and 92--97)\<close>

text \<open>
  \<open>randn sd shape\<close> stands for \<^verbatim>\<open>torch.randn(*shape, generator=g)\<close> with
  \<open>g\<close> a fresh generator seeded by \<^verbatim>\<open>manual_seed(sd)\<close>. The test
  \<^verbatim>\<open>'share_noise' in args and args['share_noise']\<close> holds for \<open>Some True\<close> only.
\<close>

definition prepare_data_noise :: "(int \<Rightarrow> nat list \<Rightarrow> 'n) \<Rightarrow> args \<Rightarrow> 'n option" where
  "prepare_data_noise randn a =
     (if share_noise a \<noteq> None \<and> the (share_noise a)
      then Some (randn (seed a) [1, 3, image_size a, image_size a])
      else None)"

definition evaluation_noise :: "(int \<Rightarrow> nat list \<Rightarrow> 'n) \<Rightarrow> args \<Rightarrow> 'n option" where
  "evaluation_noise randn a =
     (if share_noise a \<noteq> None \<and> the (share_noise a)
      then Some (randn (seed a) [1, 3, image_size a, image_size a])
      else None)"

subsection \<open>\<^verbatim>\<open>prepare_data\<close>\<close>

text \<open>
  The accumulators \<open>X\<close> and \<open>y\<close> of the loop, and the noise argument of every call of
  the feature extractor so far. A dataset is the list of its (image, label map) pairs;
  \<open>fe img noise\<close> stands for
  \<^verbatim>\<open>collect_features(args, feature_extractor(img[None], noise=noise))\<close>.
\<close>

record 'n prep_state =
  X_acc :: "real list list list list"
  y_acc :: "8 word list list list"
  fe_noise :: "'n option list"

definition prep_init :: "args \<Rightarrow> nat \<Rightarrow> 'n prep_state" where
  "prep_init a n =
     \<lparr>X_acc = replicate n (zeros3 (rev (dim a))),
      y_acc = replicate n (zeros2_uint8 (butlast (dim a))),
      fe_noise = []\<rparr>"

text \<open>The body of the loop over the dataset (lines 62--72).\<close>

definition prepare_row ::
  "args \<Rightarrow> ('i \<Rightarrow> 'n option \<Rightarrow> real list list list) \<Rightarrow> 'n option \<Rightarrow> 'n prep_state
     \<Rightarrow> nat \<times> 'i \<times> int list list \<Rightarrow> 'n prep_state" where
  "prepare_row a fe noise st x =
     (case x of (row, img, label) \<Rightarrow>
        let features = fe img noise;
            st1 = st\<lparr>X_acc := (X_acc st)[row := features],
                     fe_noise := fe_noise st @ [noise]\<rparr>;
            label' = suppress a label
        in st1\<lparr>y_acc := (y_acc st1)[row := map (map to_uint8) label']\<rparr>)"

definition prepare_loop ::
  "args \<Rightarrow> (int \<Rightarrow> nat list \<Rightarrow> 'n) \<Rightarrow> ('i \<Rightarrow> 'n option \<Rightarrow> real list list list)
     \<Rightarrow> ('i \<times> int list list) list \<Rightarrow> 'n prep_state" where
  "prepare_loop a randn fe dataset =
     foldl (prepare_row a fe (prepare_data_noise randn a))
       (prep_init a (length dataset)) (enumerate 0 dataset)"

text \<open>
  Lines 74--77: the flattened feature matrix and label vector. \<open>d\<close> is
  \<^verbatim>\<open>X.shape[1]\<close>, and the matrix after \<^verbatim>\<open>reshape(d, -1)\<close> has as many columns as
  \<open>X\<close> has elements per feature channel.
\<close>

definition flat_features ::
  "args \<Rightarrow> (int \<Rightarrow> nat list \<Rightarrow> 'n) \<Rightarrow> ('i \<Rightarrow> 'n option \<Rightarrow> real list list list)
     \<Rightarrow> ('i \<times> int list list) list \<Rightarrow> real list list" where
  "flat_features a randn fe dataset =
     (let X = X_acc (prepare_loop a randn fe dataset);
          d = hd (rev (dim a));
          m = length dataset * prod_list (tl (rev (dim a)))
      in permute_10 m (reshape_rows (permute_1023 d X)))"

definition flat_labels ::
  "args \<Rightarrow> (int \<Rightarrow> nat list \<Rightarrow> 'n) \<Rightarrow> ('i \<Rightarrow> 'n option \<Rightarrow> real list list list)
     \<Rightarrow> ('i \<times> int list list) list \<Rightarrow> 8 word list" where
  "flat_labels a randn fe dataset = flatten3 (y_acc (prepare_loop a randn fe dataset))"

text \<open>The mask \<^verbatim>\<open>y != args['ignore_label']\<close> and the returned pair (line 79).\<close>

definition keep_mask ::
  "args \<Rightarrow> (int \<Rightarrow> nat list \<Rightarrow> 'n) \<Rightarrow> ('i \<Rightarrow> 'n option \<Rightarrow> real list list list)
     \<Rightarrow> ('i \<times> int list list) list \<Rightarrow> bool list" where
  "keep_mask a randn fe dataset =
     map (\<lambda>v. uint v \<noteq> ignore_label a) (flat_labels a randn fe dataset)"

definition prepare_data ::
  "args \<Rightarrow> (int \<Rightarrow> nat list \<Rightarrow> 'n) \<Rightarrow> ('i \<Rightarrow> 'n option \<Rightarrow> real list list list)
     \<Rightarrow> ('i \<times> int list list) list \<Rightarrow> real list list \<times> 8 word list" where
  "prepare_data a randn fe dataset =
     (mask_select (flat_features a randn fe dataset) (keep_mask a randn fe dataset),
      mask_select (flat_labels a randn fe dataset) (keep_mask a randn fe dataset))"

text \<open>
  Shapes. \<^verbatim>\<open>X[row] = ...\<close> and \<^verbatim>\<open>y[row] = label\<close> copy a tensor into a slot of the
  accumulator; the model stores the tensor as it is, which is what the assignment does
  when the tensor has the shape of the slot. The configuration is well formed when
  \<open>dim = [S, S, D]\<close> (the entry point sets \<^verbatim>\<open>image_size = dim[0]\<close>, images are
  square) with \<open>0 < D\<close> (\<^verbatim>\<open>reshape(0, -1)\<close> of an empty tensor is rejected by torch);
  the dataset is well formed when every label map and every feature tensor has the
  shape of its slot.
\<close>

definition has_shape2 :: "nat \<Rightarrow> nat \<Rightarrow> 'a list list \<Rightarrow> bool" where
  "has_shape2 h w xs \<longleftrightarrow> length xs = h \<and> list_all (\<lambda>r. length r = w) xs"

definition has_shape3 :: "nat \<Rightarrow> nat \<Rightarrow> nat \<Rightarrow> 'a list list list \<Rightarrow> bool" where
  "has_shape3 d h w xs \<longleftrightarrow> length xs = d \<and> list_all (has_shape2 h w) xs"

definition wf_args :: "args \<Rightarrow> bool" where
  "wf_args a \<longleftrightarrow> (case dim a of [h, w, d] \<Rightarrow> h = w \<and> 0 < d | _ \<Rightarrow> False)"

definition wf_dataset ::
  "args \<Rightarrow> ('i \<Rightarrow> 'n option \<Rightarrow> real list list list) \<Rightarrow> 'n option
     \<Rightarrow> ('i \<times> int list list) list \<Rightarrow> bool" where
  "wf_dataset a fe noise dataset \<longleftrightarrow>
     wf_args a \<and>
     list_all (\<lambda>x. has_shape2 (dim a ! 0) (dim a ! 1) (snd x) \<and>
                   has_shape3 (dim a ! 2) (dim a ! 1) (dim a ! 0) (fe (fst x) noise)) dataset"

subsection \<open>\<^verbatim>\<open>evaluation\<close>\<close>

text \<open>
  The lists built by the loop over the test set (lines 99--109), and the noise argument
  of every call of the feature extractor. \<open>predict_labels x\<close> stands for
  \<^verbatim>\<open>predict_labels(models, x, size=args['dim'][:-1])\<close>, which yields a prediction and
  an uncertainty score; \<open>compute_iou preds gts\<close> for \<^verbatim>\<open>compute_iou(args, preds, gts)\<close>.
\<close>

record ('n, 'p) eval_state =
  preds :: "'p list"
  gts :: "int list list list"
  uncertainty_scores :: "real list"
  eval_noise :: "'n option list"

definition eval_init :: "('n, 'p) eval_state" where
  "eval_init = \<lparr>preds = [], gts = [], uncertainty_scores = [], eval_noise = []\<rparr>"

text \<open>\<^verbatim>\<open>features.view(args['dim'][-1], -1).permute(1, 0)\<close> (line 105).\<close>

definition eval_input :: "args \<Rightarrow> real list list list \<Rightarrow> real list list" where
  "eval_input a features = permute_10 (prod_list (butlast (dim a))) (map concat features)"

definition evaluation_row ::
  "args \<Rightarrow> ('i \<Rightarrow> 'n option \<Rightarrow> real list list list) \<Rightarrow> (real list list \<Rightarrow> 'p \<times> real)
     \<Rightarrow> 'n option \<Rightarrow> ('n, 'p) eval_state \<Rightarrow> 'i \<times> int list list \<Rightarrow> ('n, 'p) eval_state" where
  "evaluation_row a fe predict_labels noise st x =
     (case x of (img, label) \<Rightarrow>
        let features = fe img noise;
            x = eval_input a features
        in case predict_labels x of (pred, uncertainty_score) \<Rightarrow>
             st\<lparr>gts := gts st @ [label],
                preds := preds st @ [pred],
                uncertainty_scores := uncertainty_scores st @ [uncertainty_score],
                eval_noise := eval_noise st @ [noise]\<rparr>)"

definition evaluation_loop ::
  "args \<Rightarrow> (int \<Rightarrow> nat list \<Rightarrow> 'n) \<Rightarrow> ('i \<Rightarrow> 'n option \<Rightarrow> real list list list)
     \<Rightarrow> (real list list \<Rightarrow> 'p \<times> real) \<Rightarrow> ('i \<times> int list list) list \<Rightarrow> ('n, 'p) eval_state" where
  "evaluation_loop a randn fe predict_labels dataset =
     foldl (evaluation_row a fe predict_labels (evaluation_noise randn a)) eval_init dataset"

text \<open>
  Lines 111--114: the mean IoU and the mean uncertainty that the function prints.
  \<^verbatim>\<open>sum(uncertainty_scores) / len(uncertainty_scores)\<close> raises
  \<^verbatim>\<open>ZeroDivisionError\<close> on an empty list.
\<close>

definition evaluation ::
  "args \<Rightarrow> (int \<Rightarrow> nat list \<Rightarrow> 'n) \<Rightarrow> ('i \<Rightarrow> 'n option \<Rightarrow> real list list list)
     \<Rightarrow> (real list list \<Rightarrow> 'p \<times> real) \<Rightarrow> ('p list \<Rightarrow> int list list list \<Rightarrow> real)
     \<Rightarrow> ('i \<times> int list list) list \<Rightarrow> error + real \<times> real" where
  "evaluation a randn fe predict_labels compute_iou dataset =
     (let st = evaluation_loop a randn fe predict_labels dataset;
          miou = compute_iou (preds st) (gts st)
      in if length (uncertainty_scores st) = 0 then Inl ZeroDivisionError
         else Inr (miou, sum_list (uncertainty_scores st) / real (length (uncertainty_scores st))))"

subsection \<open>Classes with sparse labels, and a small example\<close>

text \<open>
  A class value \<open>v\<close> is sparse in a label map when it is subject to the check of the
  suppression loop (a class index other than the ignore label) and labels more than
  0 and fewer than 20 pixels. \<open>sparse_in\<close> restricts the class indices to those the
  loop has already visited.
\<close>

definition sparse_in :: "args \<Rightarrow> int set \<Rightarrow> int list list \<Rightarrow> int \<Rightarrow> bool" where
  "sparse_in a S label v \<longleftrightarrow>
     v \<in> S \<and> v \<noteq> ignore_label a \<and> 0 < count_label label v \<and> count_label label v < 20"

definition sparse_class :: "args \<Rightarrow> int list list \<Rightarrow> int \<Rightarrow> bool" where
  "sparse_class a label v \<longleftrightarrow>
     0 \<le> v \<and> v < number_class a \<and> v \<noteq> ignore_label a \<and>
     0 < count_label label v \<and> count_label label v < 20"

text \<open>A configuration for images of 5 by 5 pixels with two feature channels, and a label
  map with 21 pixels of class 0 and 4 pixels of class 1.\<close>

definition demo_opts :: args where
  "demo_opts = \<lparr>number_class = 3, ignore_label = 255, dim = [5, 5, 2], image_size = 5,
     share_noise = Some True, seed = 7, start_model_num = 0, model_num = 1\<rparr>"

definition demo_label :: "int list list" where
  "demo_label = [[0, 0, 0, 0, 0], [0, 0, 0, 0, 0], [0, 0, 0, 0, 0], [0, 0, 0, 0, 0],
                 [0, 1, 1, 1, 1]]"

text \<open>
  A dataset of two images for \<open>demo_opts\<close>: the second label map has 22 pixels of
  class 2 and 3 pixels that carry the ignore label. The feature extractor of the
  example writes image, channel, row and column into every feature value, and the
  noise of the example records seed and shape.
\<close>

definition demo_label2 :: "int list list" where
  "demo_label2 = [[2, 2, 2, 2, 2], [2, 2, 2, 2, 2], [2, 2, 2, 2, 2], [2, 2, 2, 2, 2],
                  [2, 2, 255, 255, 255]]"

definition demo_dataset :: "(nat \<times> int list list) list" where
  "demo_dataset = [(0, demo_label), (1, demo_label2)]"

definition demo_fe :: "nat \<Rightarrow> (int \<times> nat list) option \<Rightarrow> real list list list" where
  "demo_fe img noise =
     map (\<lambda>j. map (\<lambda>r. map (\<lambda>q. real (1000 * img + 100 * j + 10 * r + q)) [0..<5]) [0..<5])
       [0..<2]"

definition demo_randn :: "int \<Rightarrow> nat list \<Rightarrow> int \<times> nat list" where
  "demo_randn sd shape = (sd, shape)"

subsection \<open>Label values and the accumulator's range\<close>

text \<open>
  The values that \<^verbatim>\<open>uint8\<close> holds exactly; the number of pixels of a label map
  that differ from the ignore label, for the integer label map and for the values
  it has once stored in the accumulator; and a label map with one value above 255.
\<close>

definition uint8_range :: "int \<Rightarrow> bool" where
  "uint8_range v \<longleftrightarrow> 0 \<le> v \<and> v \<le> 255"

definition count_non_ignore :: "args \<Rightarrow> int list list \<Rightarrow> nat" where
  "count_non_ignore a label =
     sum_list (map (\<lambda>row. length (filter (\<lambda>v. v \<noteq> ignore_label a) row)) label)"

definition count_stored_non_ignore :: "args \<Rightarrow> int list list \<Rightarrow> nat" where
  "count_stored_non_ignore a label =
     sum_list (map (\<lambda>row. length (filter (\<lambda>v. uint (to_uint8 v) \<noteq> ignore_label a) row)) label)"

definition wide_label :: "int list list" where
  "wide_label = [[511, 0, 0, 0, 0], [0, 0, 0, 0, 0], [0, 0, 0, 0, 0], [0, 0, 0, 0, 0],
                 [0, 0, 0, 0, 0]]"

definition wide_dataset :: "(nat \<times> int list list) list" where
  "wide_dataset = [(0, wide_label)]"

text \<open>
  A configuration with 512 classes, and one image all of whose pixels have the class
  index 511.
\<close>

definition many_class_opts :: args where
  "many_class_opts = demo_opts\<lparr>number_class := 512\<rparr>"

definition high_label :: "int list list" where
  "high_label = [[511, 511, 511, 511, 511], [511, 511, 511, 511, 511],
                 [511, 511, 511, 511, 511], [511, 511, 511, 511, 511],
                 [511, 511, 511, 511, 511]]"

definition high_dataset :: "(nat \<times> int list list) list" where
  "high_dataset = [(0, high_label)]"

subsection \<open>A scenario of two images of 4 by 4 pixels\<close>

text \<open>
  For \<open>resume_opts\<close> (three classes, ignore label 255, three feature channels): both
  images have 11 pixels of class 0 and 5 pixels of class 1, so class 1 has 10 pixels
  in all. The feature extractor of the scenario yields zeros, the classifier a
  constant uncertainty, and \<open>class1_pixels\<close> stands in for the metric: it counts
  the pixels of class 1 in the ground truth it is given.
\<close>

definition scenario_label :: "int list list" where
  "scenario_label = [[0, 0, 0, 0], [0, 0, 0, 0], [0, 0, 0, 1], [1, 1, 1, 1]]"

definition scenario_dataset :: "(nat \<times> int list list) list" where
  "scenario_dataset = [(0, scenario_label), (1, scenario_label)]"

definition scenario_fe :: "nat \<Rightarrow> (int \<times> nat list) option \<Rightarrow> real list list list" where
  "scenario_fe img noise = zeros3 [3, 4, 4]"

definition scenario_predict :: "real list list \<Rightarrow> nat \<times> real" where
  "scenario_predict x = (length x, 1 / 2)"

definition class1_pixels :: "nat list \<Rightarrow> int list list list \<Rightarrow> real" where
  "class1_pixels ps gs = real (sum_list (map (\<lambda>g. count_label g 1) gs))"

section \<open>Resumption\<close>

lemma member_loop_acc:
  "member_loop losses ms (trained, fs) =
     (trained @ map (\<lambda>m. (m, train_member (losses m))) ms, fs \<union> set ms)"
  by (induction ms arbitrary: trained fs) auto

lemma train_members:
  "train a losses fs =
     (map (\<lambda>m. (m, train_member (losses m))) [start_model_num a..model_num a - 1],
      fs \<union> {start_model_num a..model_num a - 1})"
  by (simp add: train_def member_loop_acc)

lemma pretrained_all: "py_all (pretrained opts fs) \<longleftrightarrow> {0..model_num opts - 1} \<subseteq> fs"
  by (auto simp: py_all_def pretrained_def list_all_iff)

lemma load_ensemble_Inr:
  "load_ensemble opts fs = Inr ms \<longleftrightarrow>
     {0..model_num opts - 1} \<subseteq> fs \<and> ms = [0..model_num opts - 1]"
  by (auto simp: load_ensemble_def list_all_iff)

lemma main_train_grows: "fs \<subseteq> snd (main_train opts losses fs)"
  by (auto simp: main_train_def train_members)

lemma train_member_no_batches: "train_member (\<lambda>e. []) = es_init"
proof -
  have "epoch_loop (\<lambda>e. []) es s = s" if "stop_sign s = 0" for es s
    using that by (induction es) auto
  thus ?thesis by (simp add: train_member_def es_init_def)
qed

text \<open>
  C4. The claim: on a restart the trainer runs exactly for the members whose file
  \<^verbatim>\<open>model_<i>.pth\<close> is absent, for every pattern of existing files. The entry point
  starts at \<^verbatim>\<open>sum(pretrained)\<close>, the number of files present: with three members
  and the files of members 0 and 2 present, it trains member 2 again (overwriting its
  file) and never trains member 1, whose file stays absent.
\<close>

theorem resume_noncontiguous_retrains_existing:
  "map fst (fst (main_train resume_opts losses {0, 2})) = [2] \<and>
   snd (main_train resume_opts losses {0, 2}) = {0, 2}"
  by (auto simp: main_train_def train_members pretrained_def py_all_def py_sum_bools_def
      resume_opts_def upto_rec1)

text \<open>
  C8. Resumption is idempotent: when a first run of the entry point completes (training
  phase and loading of the ensemble), every member file \<^verbatim>\<open>model_<i>.pth\<close> with
  \<open>0 \<le> i < model_num\<close> exists afterwards, no file that existed before is gone, and a
  second run on that directory with the same configuration trains no member and goes
  on to load the ensemble, whatever losses it would see.
\<close>

theorem resumption_idempotent:
  assumes "main_run opts losses fs = Inr (trained, fs')"
  shows "list_all (\<lambda>i. i \<in> fs') [0..model_num opts - 1] \<and> fs \<subseteq> fs' \<and>
         main_run opts losses' fs' = Inr ([], fs')"
proof -
  have mt: "main_train opts losses fs = (trained, fs')"
    and ld: "\<not> isl (load_ensemble opts fs')"
    using assms by (auto simp: main_run_def split: prod.splits sum.splits)
  from ld have all: "{0..model_num opts - 1} \<subseteq> fs'"
    by (auto simp: load_ensemble_def list_all_iff split: if_splits)
  have "fs \<subseteq> fs'"
    using main_train_grows[of fs opts losses] mt by simp
  moreover have "main_train opts losses' fs' = ([], fs')"
    using all by (simp add: main_train_def pretrained_all)
  moreover have "load_ensemble opts fs' = Inr [0..model_num opts - 1]"
    using all by (simp add: load_ensemble_Inr)
  ultimately show ?thesis
    using all by (simp add: main_run_def list_all_iff subset_iff)
qed

theorem resumption_idempotent_witness:
  "main_run resume_opts (\<lambda>m e. []) {} =
     Inr ([(0, es_init), (1, es_init), (2, es_init)], {0, 1, 2}) \<and>
   list_all (\<lambda>i. i \<in> {0, 1, 2::int}) [0..model_num resume_opts - 1] \<and>
   {} \<subseteq> {0, 1, 2::int} \<and>
   main_run resume_opts (\<lambda>m e. []) {0, 1, 2} = Inr ([], {0, 1, 2})"
proof -
  have r: "main_run resume_opts (\<lambda>m e. []) {} =
             Inr ([(0, es_init), (1, es_init), (2, es_init)], {0, 1, 2})"
    by (auto simp: main_run_def main_train_def train_members pretrained_def py_all_def
        py_sum_bools_def resume_opts_def upto_rec1 load_ensemble_def train_member_no_batches)
  from resumption_idempotent[OF r, of "\<lambda>m e. []"] r show ?thesis by simp
qed

section \<open>Early stopping\<close>

lemma spec_step_pair:
  "spec_step (best, bc) (e, loss) =
     (if e > 3 then (if loss < best then (loss, 0) else (best, bc + 1)) else (best, bc))"
  by (simp add: spec_step_def)

lemma batch_loop_flat: "batch_loop e ls s = flat_loop (map (Pair e) ls) s"
  by (induction ls arbitrary: s) (auto split: prod.splits)

lemma batch_body_stop:
  assumes "stop_sign s = 0" "batch_body e l s = (s', brk)"
  shows "stop_sign s' = (if brk then 1 else 0)"
  using assms by (auto simp: batch_body_def Let_def split: if_splits)

lemma flat_loop_stop01: "stop_sign s = 0 \<Longrightarrow> stop_sign (flat_loop xs s) \<le> 1"
proof (induction xs arbitrary: s)
  case Nil thus ?case by simp
next
  case (Cons x xs)
  obtain e l where x: "x = (e, l)" by (cases x)
  obtain s' brk where b: "batch_body e l s = (s', brk)" by (cases "batch_body e l s")
  from batch_body_stop[OF Cons.prems b] Cons.IH[of s'] show ?case
    by (auto simp: x b)
qed

lemma flat_loop_append:
  "stop_sign s = 0 \<Longrightarrow>
   flat_loop (xs @ ys) s =
     (let s' = flat_loop xs s in if stop_sign s' = 1 then s' else flat_loop ys s')"
proof (induction xs arbitrary: s)
  case Nil thus ?case by simp
next
  case (Cons x xs)
  obtain e l where x: "x = (e, l)" by (cases x)
  obtain s' brk where b: "batch_body e l s = (s', brk)" by (cases "batch_body e l s")
  from batch_body_stop[OF Cons.prems b] Cons.IH[of s'] show ?case
    by (auto simp: x b)
qed

lemma epoch_loop_flat:
  "stop_sign s = 0 \<Longrightarrow>
   epoch_loop losses es s = flat_loop (concat (map (\<lambda>e. map (Pair e) (losses e)) es)) s"
proof (induction es arbitrary: s)
  case Nil thus ?case by simp
next
  case (Cons e es)
  let ?s' = "flat_loop (map (Pair e) (losses e)) s"
  have "stop_sign ?s' \<le> 1" using flat_loop_stop01[OF Cons.prems] .
  hence "stop_sign ?s' \<noteq> 1 \<Longrightarrow> stop_sign ?s' = 0" by simp
  with Cons show ?case
    by (simp add: batch_loop_flat flat_loop_append Let_def)
qed

lemma train_member_flat: "train_member losses = flat_loop (schedule losses) es_init"
  by (simp add: train_member_def schedule_def epoch_loop_flat es_init_def)

lemma flat_loop_char:
  assumes "stop_sign s = 0" "break_count s \<le> 50"
  shows "\<exists>n \<le> length xs.
           iteration (flat_loop xs s) = iteration s + n \<and>
           (best_loss (flat_loop xs s), break_count (flat_loop xs s)) =
              foldl spec_step (best_loss s, break_count s) (take n xs) \<and>
           (stop_sign (flat_loop xs s) = 1 \<longleftrightarrow> break_count (flat_loop xs s) > 50) \<and>
           (n < length xs \<longrightarrow> stop_sign (flat_loop xs s) = 1) \<and>
           (\<forall>m<n. snd (foldl spec_step (best_loss s, break_count s) (take m xs)) \<le> 50)"
  using assms
proof (induction xs arbitrary: s)
  case Nil thus ?case by simp
next
  case (Cons x xs)
  obtain e l where x: "x = (e, l)" by (cases x)
  obtain s' brk where b: "batch_body e l s = (s', brk)" by (cases "batch_body e l s")
  have st: "(best_loss s', break_count s') = spec_step (best_loss s, break_count s) x"
    and it: "iteration s' = iteration s + 1"
    and brk: "brk \<longleftrightarrow> break_count s' > 50 \<and> e > 3"
    and ss: "stop_sign s' = (if brk then 1 else 0)"
    using b Cons.prems by (auto simp: batch_body_def Let_def spec_step_pair x split: if_splits)
  show ?case
  proof (cases brk)
    case True
    have "\<forall>m<Suc 0. snd (foldl spec_step (best_loss s, break_count s) (take m (x # xs))) \<le> 50"
      using Cons.prems by simp
    with True st it brk ss show ?thesis
      by (intro exI[of _ 1]) (simp add: x b)
  next
    case False
    hence p: "stop_sign s' = 0" "break_count s' \<le> 50"
      using ss brk b Cons.prems by (auto simp: batch_body_def Let_def split: if_splits)
    from Cons.IH[OF p] obtain n where n: "n \<le> length xs"
      "iteration (flat_loop xs s') = iteration s' + n"
      "(best_loss (flat_loop xs s'), break_count (flat_loop xs s')) =
              foldl spec_step (best_loss s', break_count s') (take n xs)"
      "(stop_sign (flat_loop xs s') = 1 \<longleftrightarrow> break_count (flat_loop xs s') > 50)"
      "(n < length xs \<longrightarrow> stop_sign (flat_loop xs s') = 1)"
      "(\<forall>m<n. snd (foldl spec_step (best_loss s', break_count s') (take m xs)) \<le> 50)"
      by blast
    have fl: "flat_loop (x # xs) s = flat_loop xs s'" using False by (simp add: x b)
    have all: "\<forall>m<Suc n. snd (foldl spec_step (best_loss s, break_count s) (take m (x # xs))) \<le> 50"
    proof (intro allI impI)
      fix m assume "m < Suc n"
      show "snd (foldl spec_step (best_loss s, break_count s) (take m (x # xs))) \<le> 50"
      proof (cases m)
        case 0 thus ?thesis using Cons.prems by simp
      next
        case (Suc m')
        with \<open>m < Suc n\<close> n(6) st show ?thesis by simp
      qed
    qed
    show ?thesis
      apply (rule exI[of _ "Suc n"])
      using n(1-5) all st it unfolding fl by simp
  qed
qed

lemma track_flat_run:
  assumes len: "i + Suc k \<le> length xs"
    and flat: "\<forall>t\<le>k. fst (xs ! (i + t)) > 3 \<and> snd (xs ! (i + t)) = c"
  shows "snd (foldl spec_step st (take (i + Suc k) xs)) \<ge> k \<and>
         fst (foldl spec_step st (take (i + Suc k) xs)) \<le> c"
  using assms
proof (induction k)
  case 0
  have "take (Suc i) xs = take i xs @ [xs ! i]"
    using 0 by (simp add: take_Suc_conv_app_nth)
  moreover obtain e where "xs ! i = (e, c)" "e > 3" using 0(2) by (cases "xs ! i") auto
  ultimately show ?case
    by (cases "foldl spec_step st (take i xs)") (auto simp: spec_step_pair)
next
  case (Suc k)
  hence IH: "snd (foldl spec_step st (take (i + Suc k) xs)) \<ge> k"
            "fst (foldl spec_step st (take (i + Suc k) xs)) \<le> c" by auto
  have "take (i + Suc (Suc k)) xs = take (i + Suc k) xs @ [xs ! (i + Suc k)]"
    using Suc.prems by (simp add: take_Suc_conv_app_nth)
  moreover obtain e where "xs ! (i + Suc k) = (e, c)" "e > 3"
    using Suc.prems(2) by (cases "xs ! (i + Suc k)") auto
  ultimately show ?case using IH
    by (cases "foldl spec_step st (take (i + Suc k) xs)") (auto simp: spec_step_pair)
qed

lemma warmup_batch_loop:
  "epoch \<le> 3 \<Longrightarrow> batch_loop epoch ls s = s\<lparr>iteration := iteration s + length ls\<rparr>"
  by (induction ls arbitrary: s) (auto simp: batch_body_def)

lemma train_member_char:
  "\<exists>n \<le> length (schedule losses).
     iteration (train_member losses) = n \<and>
     (best_loss (train_member losses), break_count (train_member losses)) =
        spec_track (take n (schedule losses)) \<and>
     (stop_sign (train_member losses) = 1 \<longleftrightarrow> break_count (train_member losses) > 50) \<and>
     (n < length (schedule losses) \<longrightarrow> stop_sign (train_member losses) = 1) \<and>
     (\<forall>m<n. snd (spec_track (take m (schedule losses))) \<le> 50)"
proof -
  have i: "stop_sign es_init = 0" "break_count es_init \<le> 50" "iteration es_init = 0"
    "best_loss es_init = 10000000" "break_count es_init = 0"
    by (simp_all add: es_init_def)
  from flat_loop_char[OF i(1,2), of "schedule losses"] show ?thesis
    unfolding train_member_flat spec_track_def i(3,4,5) by auto
qed

lemma flat_run_stops:
  assumes len: "i + 52 \<le> length (schedule losses)"
    and flat: "list_all (\<lambda>x. fst x > 3 \<and> snd x = c) (take 52 (drop i (schedule losses)))"
  shows "iteration (train_member losses) \<le> i + 52"
proof (rule ccontr)
  assume "\<not> ?thesis"
  hence gt: "i + 52 < iteration (train_member losses)" by simp
  from train_member_char[of losses] have
    "\<forall>m<iteration (train_member losses). snd (spec_track (take m (schedule losses))) \<le> 50"
    by auto
  with gt have le: "snd (spec_track (take (i + 52) (schedule losses))) \<le> 50" by blast
  have "\<forall>t\<le>51. fst (schedule losses ! (i + t)) > 3 \<and> snd (schedule losses ! (i + t)) = c"
  proof (intro allI impI)
    fix t :: nat assume t: "t \<le> 51"
    have "take 52 (drop i (schedule losses)) ! t = schedule losses ! (i + t)"
      using t len by simp
    moreover have "t < length (take 52 (drop i (schedule losses)))" using t len by simp
    ultimately show "fst (schedule losses ! (i + t)) > 3 \<and> snd (schedule losses ! (i + t)) = c"
      using flat unfolding list_all_length by metis
  qed
  from track_flat_run[of i 51 "schedule losses" c "(10000000, 0)", OF _ this] len
  have "51 \<le> snd (spec_track (take (i + 52) (schedule losses)))"
    by (simp add: spec_track_def)
  with le show False by simp
qed

text \<open>
  C3, as amended. For the training of one ensemble member:
  \<^item> in an epoch with index 0 to 3 the batch loop only counts iterations: best loss,
    break count and stop flag are not touched;
  \<^item> in an epoch with index 4 or more, a step with loss \<open>l\<close> sets the best loss to
    \<open>l\<close> and the break count to 0 when \<open>l\<close> is below the best loss, and increments
    the break count otherwise; it ends the batch loop and sets the stop flag exactly
    when the break count then exceeds 50;
  \<^item> the steps executed are the first \<open>n\<close> steps of the schedule, where \<open>n\<close> is the
    final iteration count; best loss and break count are those of the policy over
    these steps; the stop flag is set exactly when the break count exceeds 50;
    training ends before the schedule is exhausted only with the stop flag set; and
    the break count was at most 50 after each earlier step, so training stops as
    soon as the count exceeds 50, abandoning the remaining batches and epochs;
  \<^item> if the loss stays flat for 52 consecutive steps after epoch 3 (one step that
    establishes the level and 51 steps that do not improve on it), training stops
    within that run and executes no step after it.
\<close>

theorem early_stopping:
  "(e0 \<le> 3 \<longrightarrow> batch_loop e0 ls s0 = s0\<lparr>iteration := iteration s0 + length ls\<rparr>) \<and>
   (e1 > 3 \<longrightarrow>
      iteration (fst (batch_body e1 l s)) = iteration s + 1 \<and>
      best_loss (fst (batch_body e1 l s)) = (if l < best_loss s then l else best_loss s) \<and>
      break_count (fst (batch_body e1 l s)) = (if l < best_loss s then 0 else break_count s + 1) \<and>
      (snd (batch_body e1 l s) \<longleftrightarrow> break_count (fst (batch_body e1 l s)) > 50) \<and>
      stop_sign (fst (batch_body e1 l s)) = (if snd (batch_body e1 l s) then 1 else stop_sign s)) \<and>
   iteration (train_member losses) \<le> length (schedule losses) \<and>
   (best_loss (train_member losses), break_count (train_member losses)) =
      spec_track (take (iteration (train_member losses)) (schedule losses)) \<and>
   (stop_sign (train_member losses) = 1 \<longleftrightarrow> break_count (train_member losses) > 50) \<and>
   (iteration (train_member losses) < length (schedule losses) \<longrightarrow>
      stop_sign (train_member losses) = 1) \<and>
   (m < iteration (train_member losses) \<longrightarrow>
      snd (spec_track (take m (schedule losses))) \<le> 50) \<and>
   (i + 52 \<le> length (schedule losses) \<and>
    list_all (\<lambda>x. fst x > 3 \<and> snd x = c) (take 52 (drop i (schedule losses))) \<longrightarrow>
      iteration (train_member losses) \<le> i + 52)"
proof -
  have a: "e0 \<le> 3 \<longrightarrow> batch_loop e0 ls s0 = s0\<lparr>iteration := iteration s0 + length ls\<rparr>"
    by (simp add: warmup_batch_loop)
  have b: "e1 > 3 \<longrightarrow>
      iteration (fst (batch_body e1 l s)) = iteration s + 1 \<and>
      best_loss (fst (batch_body e1 l s)) = (if l < best_loss s then l else best_loss s) \<and>
      break_count (fst (batch_body e1 l s)) = (if l < best_loss s then 0 else break_count s + 1) \<and>
      (snd (batch_body e1 l s) \<longleftrightarrow> break_count (fst (batch_body e1 l s)) > 50) \<and>
      stop_sign (fst (batch_body e1 l s)) = (if snd (batch_body e1 l s) then 1 else stop_sign s)"
    by (simp add: batch_body_def Let_def)
  from train_member_char[of losses] have c:
    "iteration (train_member losses) \<le> length (schedule losses)"
    "(best_loss (train_member losses), break_count (train_member losses)) =
      spec_track (take (iteration (train_member losses)) (schedule losses))"
    "(stop_sign (train_member losses) = 1 \<longleftrightarrow> break_count (train_member losses) > 50)"
    "(iteration (train_member losses) < length (schedule losses) \<longrightarrow>
      stop_sign (train_member losses) = 1)"
    "(m < iteration (train_member losses) \<longrightarrow>
      snd (spec_track (take m (schedule losses))) \<le> 50)"
    by auto
  have d: "i + 52 \<le> length (schedule losses) \<and>
    list_all (\<lambda>x. fst x > 3 \<and> snd x = c) (take 52 (drop i (schedule losses))) \<longrightarrow>
      iteration (train_member losses) \<le> i + 52"
    using flat_run_stops by blast
  from a b c d show ?thesis by blast
qed

theorem early_stopping_witness:
  "batch_loop 0 [5, 4] es_init = es_init\<lparr>iteration := 2\<rparr> \<and>
   best_loss (fst (batch_body 4 1 es_init)) = 1 \<and>
   break_count (fst (batch_body 4 1 es_init)) = 0 \<and>
   \<not> snd (batch_body 4 1 es_init) \<and>
   stop_sign (fst (batch_body 4 1 es_init)) = 0 \<and>
   length (schedule flat_losses) = 100 \<and>
   list_all (\<lambda>x. fst x > 3 \<and> snd x = 1) (take 52 (drop 4 (schedule flat_losses))) \<and>
   iteration (train_member flat_losses) = 56 \<and>
   stop_sign (train_member flat_losses) = 1 \<and>
   break_count (train_member flat_losses) = 51 \<and>
   spec_track (take 56 (schedule flat_losses)) = (1, 51) \<and>
   snd (spec_track (take 55 (schedule flat_losses))) \<le> 50"
proof -
  have 1: "length (schedule flat_losses) = 100" by code_simp
  have 2: "list_all (\<lambda>x. fst x > 3 \<and> snd x = 1) (take 52 (drop 4 (schedule flat_losses)))"
    by code_simp
  have 3: "iteration (train_member flat_losses) = 56" by code_simp
  have 4: "stop_sign (train_member flat_losses) = 1" by code_simp
  have 5: "break_count (train_member flat_losses) = 51" by code_simp
  have 6: "best_loss (train_member flat_losses) = 1" by code_simp
  have 7: "best_loss es_init = 10000000" "iteration es_init = 0" "break_count es_init = 0"
    "stop_sign es_init = 0"
    by (simp_all add: es_init_def)
  from early_stopping[of 0 "[5, 4]" es_init 4 1 es_init flat_losses 55 4 1]
  show ?thesis
    unfolding 1 3 4 5 6 using 2 by (simp add: 7)
qed

text \<open>
  C3 as stated fails for a flat run of 51 steps: with \<open>flat51_losses\<close> the loss is 1
  during the 51 steps of epochs 4 to 54, the first of them lowers the best loss and
  resets the count, the other 50 bring it to 50 only, and the lower loss of epoch 55
  resets it. Training runs all 100 steps and never sets the stop flag.
\<close>

theorem flat_51_counterexample:
  "4 + 51 \<le> length (schedule flat51_losses) \<and>
   list_all (\<lambda>x. fst x > 3 \<and> snd x = 1) (take 51 (drop 4 (schedule flat51_losses))) \<and>
   \<not> iteration (train_member flat51_losses) \<le> 4 + 51 \<and>
   iteration (train_member flat51_losses) = 100 \<and>
   stop_sign (train_member flat51_losses) = 0"
  by code_simp

section \<open>Sparse-label suppression\<close>

lemma count_label_map:
  "count_label (map (map f) label) t =
     sum_list (map (\<lambda>row. length (filter (\<lambda>x. f x = t) row)) label)"
  by (simp add: count_label_def comp_def filter_map)

lemma count_label_sparse_map:
  assumes "t \<noteq> ignore_label a"
  shows "count_label (map (map (\<lambda>v. if sparse_in a S label v then ignore_label a else v)) label) t =
           (if sparse_in a S label t then 0 else count_label label t)"
proof -
  have eq: "(\<lambda>x. (if sparse_in a S label x then ignore_label a else x) = t) =
            (\<lambda>x. x = t \<and> \<not> sparse_in a S label t)"
    using assms by (auto simp: fun_eq_iff)
  show ?thesis
    unfolding count_label_map eq by (simp add: count_label_def)
qed

lemma suppress_target_step:
  "suppress_target a (map (map (\<lambda>v. if sparse_in a S label v then ignore_label a else v)) label) t =
     map (map (\<lambda>v. if sparse_in a (insert t S) label v then ignore_label a else v)) label"
proof (cases "t = ignore_label a")
  case True
  hence "sparse_in a (insert t S) label = sparse_in a S label"
    by (auto simp: sparse_in_def fun_eq_iff)
  with True show ?thesis by (simp add: suppress_target_def)
next
  case False
  note cnt = count_label_sparse_map[OF False, of S label]
  show ?thesis
  proof (cases "sparse_in a (insert t S) label t")
    case sp: True
    show ?thesis
    proof (cases "sparse_in a S label t")
      case True
      hence "sparse_in a (insert t S) label = sparse_in a S label"
        by (auto simp: sparse_in_def fun_eq_iff)
      with True False cnt show ?thesis by (simp add: suppress_target_def)
    next
      case nsp: False
      have small: "0 < count_label label t" "count_label label t < 20"
        using sp by (auto simp: sparse_in_def)
      have "(\<lambda>x. if (if sparse_in a S label x then ignore_label a else x) = t
                 then ignore_label a
                 else (if sparse_in a S label x then ignore_label a else x)) =
            (\<lambda>v. if sparse_in a (insert t S) label v then ignore_label a else v)"
        using False sp nsp by (auto simp: fun_eq_iff sparse_in_def)
      thus ?thesis
        using False cnt nsp small by (simp add: suppress_target_def relabel_def comp_def)
    qed
  next
    case nsp: False
    hence ns: "\<not> sparse_in a S label t" by (auto simp: sparse_in_def)
    have "\<not> (0 < count_label label t \<and> count_label label t < 20)"
      using nsp False by (auto simp: sparse_in_def)
    moreover have "sparse_in a (insert t S) label = sparse_in a S label"
      using nsp ns by (auto simp: sparse_in_def fun_eq_iff)
    ultimately show ?thesis
      using False cnt ns by (auto simp: suppress_target_def)
  qed
qed

lemma foldl_suppress_target:
  "foldl (suppress_target a) label ts =
     map (map (\<lambda>v. if sparse_in a (set ts) label v then ignore_label a else v)) label"
proof (induction ts rule: rev_induct)
  case Nil
  have "\<not> sparse_in a {} label v" for v by (simp add: sparse_in_def)
  thus ?case by (simp add: map_idI)
next
  case (snoc t ts)
  have "set (ts @ [t]) = insert t (set ts)" by simp
  thus ?case by (simp add: snoc suppress_target_step)
qed

lemma suppress_pointwise:
  "suppress a label = map (map (\<lambda>v. if sparse_class a label v then ignore_label a else v)) label"
proof -
  have "sparse_in a (set [0..number_class a - 1]) label = sparse_class a label"
    by (auto simp: sparse_in_def sparse_class_def fun_eq_iff)
  thus ?thesis by (simp add: suppress_def foldl_suppress_target)
qed

lemma count_label_suppress:
  assumes "c \<noteq> ignore_label a"
  shows "count_label (suppress a label) c = (if sparse_class a label c then 0 else count_label label c)"
proof -
  have eq: "(\<lambda>x. (if sparse_class a label x then ignore_label a else x) = c) =
            (\<lambda>x. x = c \<and> \<not> sparse_class a label c)"
    using assms by (auto simp: fun_eq_iff)
  show ?thesis
    unfolding suppress_pointwise count_label_map eq by (simp add: count_label_def)
qed

lemma suppress_nth:
  assumes "r < length label" "q < length (label ! r)"
  shows "suppress a label ! r ! q =
           (if sparse_class a label (label ! r ! q) then ignore_label a else label ! r ! q)"
  using assms by (simp add: suppress_pointwise)

lemma suppress_shape:
  "length (suppress a label) = length label"
  "map length (suppress a label) = map length label"
  by (simp_all add: suppress_pointwise comp_def)

text \<open>
  C1. Sparse-label suppression. For a class \<open>c\<close> with \<open>0 \<le> c < number_class\<close> other
  than the ignore label and a pixel position \<open>(r, q)\<close> of the label map of an image:
  if \<open>c\<close> labels more than 0 and fewer than 20 pixels of the image, every pixel
  of class \<open>c\<close> carries the ignore label after the loop and no pixel of class \<open>c\<close>
  is left; if \<open>c\<close> labels no pixel or at least 20, exactly the same pixels carry
  \<open>c\<close> before and after. In both cases the number of pixels of class \<open>c\<close> after
  the loop is not strictly between 0 and 20, and the shape of the label map is kept.
  The loop runs on the label map before it is copied into the accumulator and
  flattened.
\<close>

theorem sparse_label_suppression:
  assumes c: "0 \<le> c" "c < number_class a" "c \<noteq> ignore_label a"
    and rq: "r < length label" "q < length (label ! r)"
  shows "(0 < count_label label c \<and> count_label label c < 20 \<longrightarrow>
            (label ! r ! q = c \<longrightarrow> suppress a label ! r ! q = ignore_label a) \<and>
            count_label (suppress a label) c = 0) \<and>
         (count_label label c = 0 \<or> 20 \<le> count_label label c \<longrightarrow>
            (suppress a label ! r ! q = c \<longleftrightarrow> label ! r ! q = c) \<and>
            count_label (suppress a label) c = count_label label c) \<and>
         \<not> (0 < count_label (suppress a label) c \<and> count_label (suppress a label) c < 20) \<and>
         length (suppress a label) = length label \<and>
         map length (suppress a label) = map length label"
proof -
  have sc: "sparse_class a label c \<longleftrightarrow> 0 < count_label label c \<and> count_label label c < 20"
    using c by (simp add: sparse_class_def)
  have n: "suppress a label ! r ! q =
           (if sparse_class a label (label ! r ! q) then ignore_label a else label ! r ! q)"
    using rq by (rule suppress_nth)
  have cnt: "count_label (suppress a label) c = (if sparse_class a label c then 0 else count_label label c)"
    using c(3) by (rule count_label_suppress)
  have 1: "0 < count_label label c \<and> count_label label c < 20 \<longrightarrow>
            (label ! r ! q = c \<longrightarrow> suppress a label ! r ! q = ignore_label a) \<and>
            count_label (suppress a label) c = 0"
    using sc n cnt by auto
  have 2: "count_label label c = 0 \<or> 20 \<le> count_label label c \<longrightarrow>
            (suppress a label ! r ! q = c \<longleftrightarrow> label ! r ! q = c) \<and>
            count_label (suppress a label) c = count_label label c"
  proof
    assume "count_label label c = 0 \<or> 20 \<le> count_label label c"
    hence ns: "\<not> sparse_class a label c" using sc by auto
    have "suppress a label ! r ! q = c \<longleftrightarrow> label ! r ! q = c"
    proof (cases "label ! r ! q = c")
      case True thus ?thesis using n ns by simp
    next
      case False thus ?thesis using n c(3) by auto
    qed
    thus "(suppress a label ! r ! q = c \<longleftrightarrow> label ! r ! q = c) \<and>
            count_label (suppress a label) c = count_label label c"
      using cnt ns by simp
  qed
  have 3: "\<not> (0 < count_label (suppress a label) c \<and> count_label (suppress a label) c < 20)"
    using cnt sc by auto
  from 1 2 3 suppress_shape[of a label] show ?thesis by blast
qed

theorem sparse_label_suppression_witness:
  "count_label demo_label 1 = 4 \<and>
   demo_label ! 4 ! 1 = 1 \<and>
   suppress demo_opts demo_label ! 4 ! 1 = 255 \<and>
   count_label (suppress demo_opts demo_label) 1 = 0 \<and>
   count_label demo_label 0 = 21 \<and>
   suppress demo_opts demo_label ! 0 ! 0 = 0 \<and>
   count_label (suppress demo_opts demo_label) 0 = 21"
proof -
  have o: "number_class demo_opts = 3" "ignore_label demo_opts = 255"
    by (simp_all add: demo_opts_def)
  have l: "length demo_label = 5" "length (demo_label ! 4) = 5" "length (demo_label ! 0) = 5"
    "demo_label ! 4 ! 1 = 1" "demo_label ! 0 ! 0 = 0"
    by (simp_all add: demo_label_def)
  have c: "count_label demo_label 1 = 4" "count_label demo_label 0 = 21"
    by (simp_all add: demo_label_def count_label_def)
  from sparse_label_suppression[of 1 demo_opts 4 demo_label 1]
       sparse_label_suppression[of 0 demo_opts 0 demo_label 0]
  show ?thesis
    unfolding o l c by simp
qed

section \<open>The feature table of \<^verbatim>\<open>prepare_data\<close>\<close>

subsection \<open>The loop over the dataset\<close>

lemma prepare_row_simps:
  "X_acc (prepare_row a fe noise st (row, img, label)) = (X_acc st)[row := fe img noise]"
  "y_acc (prepare_row a fe noise st (row, img, label)) =
     (y_acc st)[row := map (map to_uint8) (suppress a label)]"
  "fe_noise (prepare_row a fe noise st (row, img, label)) = fe_noise st @ [noise]"
  by (simp_all add: prepare_row_def Let_def)

lemma update_first_replicate:
  assumes "length xs < n"
  shows "(xs @ replicate (n - length xs) z)[length xs := v] =
         (xs @ [v]) @ replicate (n - length (xs @ [v])) z"
proof -
  obtain m where m: "n - length xs = Suc m"
    using assms by (cases "n - length xs") auto
  hence "n - length (xs @ [v]) = m" by simp
  thus ?thesis by (simp add: m list_update_append)
qed

lemma prepare_loop_prefix:
  "length xs \<le> n \<Longrightarrow>
   X_acc (foldl (prepare_row a fe noise) (prep_init a n) (enumerate 0 xs)) =
     map (\<lambda>x. fe (fst x) noise) xs @ replicate (n - length xs) (zeros3 (rev (dim a))) \<and>
   y_acc (foldl (prepare_row a fe noise) (prep_init a n) (enumerate 0 xs)) =
     map (\<lambda>x. map (map to_uint8) (suppress a (snd x))) xs @
       replicate (n - length xs) (zeros2_uint8 (butlast (dim a))) \<and>
   fe_noise (foldl (prepare_row a fe noise) (prep_init a n) (enumerate 0 xs)) =
     replicate (length xs) noise"
proof (induction xs rule: rev_induct)
  case Nil
  show ?case by (simp add: prep_init_def)
next
  case (snoc x xs)
  obtain img label where x: "x = (img, label)" by (cases x)
  have lt: "length xs < n" using snoc.prems by simp
  from snoc have IH:
    "X_acc (foldl (prepare_row a fe noise) (prep_init a n) (enumerate 0 xs)) =
       map (\<lambda>x. fe (fst x) noise) xs @ replicate (n - length xs) (zeros3 (rev (dim a)))"
    "y_acc (foldl (prepare_row a fe noise) (prep_init a n) (enumerate 0 xs)) =
       map (\<lambda>x. map (map to_uint8) (suppress a (snd x))) xs @
         replicate (n - length xs) (zeros2_uint8 (butlast (dim a)))"
    "fe_noise (foldl (prepare_row a fe noise) (prep_init a n) (enumerate 0 xs)) =
       replicate (length xs) noise"
    by simp_all
  have e: "enumerate 0 (xs @ [x]) = enumerate 0 xs @ [(length xs, img, label)]"
    by (simp add: enumerate_append_eq x)
  have 1: "(map (\<lambda>x. fe (fst x) noise) xs @ replicate (n - length xs) (zeros3 (rev (dim a))))
             [length xs := fe img noise] =
           map (\<lambda>x. fe (fst x) noise) (xs @ [x]) @
             replicate (n - length (xs @ [x])) (zeros3 (rev (dim a)))"
    using update_first_replicate[of "map (\<lambda>x. fe (fst x) noise) xs" n
        "zeros3 (rev (dim a))" "fe img noise"] lt
    by (simp add: x)
  have 2: "(map (\<lambda>x. map (map to_uint8) (suppress a (snd x))) xs @
              replicate (n - length xs) (zeros2_uint8 (butlast (dim a))))
             [length xs := map (map to_uint8) (suppress a label)] =
           map (\<lambda>x. map (map to_uint8) (suppress a (snd x))) (xs @ [x]) @
             replicate (n - length (xs @ [x])) (zeros2_uint8 (butlast (dim a)))"
    using update_first_replicate[of "map (\<lambda>x. map (map to_uint8) (suppress a (snd x))) xs"
        n "zeros2_uint8 (butlast (dim a))" "map (map to_uint8) (suppress a label)"] lt
    by (simp add: x)
  show ?case
    unfolding e foldl_append foldl_Cons foldl_Nil prepare_row_simps IH 1 2
    by (simp add: replicate_append_same)
qed

lemma prepare_loop_result:
  "X_acc (prepare_loop a randn fe ds) = map (\<lambda>x. fe (fst x) (prepare_data_noise randn a)) ds"
  "y_acc (prepare_loop a randn fe ds) = map (\<lambda>x. map (map to_uint8) (suppress a (snd x))) ds"
  "fe_noise (prepare_loop a randn fe ds) = replicate (length ds) (prepare_data_noise randn a)"
  using prepare_loop_prefix[of ds "length ds" a fe "prepare_data_noise randn a"]
  by (simp_all add: prepare_loop_def)

subsection \<open>Row-major flattening\<close>

lemma concat_rect_length:
  "list_all (\<lambda>xs. length xs = m) xss \<Longrightarrow> length (concat xss) = length xss * m"
  by (induction xss) auto

lemma concat_rect_nth:
  "list_all (\<lambda>xs. length xs = m) xss \<Longrightarrow> i < length xss \<Longrightarrow> j < m \<Longrightarrow>
   concat xss ! (i * m + j) = xss ! i ! j"
proof (induction xss arbitrary: i)
  case Nil thus ?case by simp
next
  case (Cons xs xss)
  show ?case
  proof (cases i)
    case 0 thus ?thesis using Cons.prems by (simp add: nth_append)
  next
    case (Suc i')
    hence "concat (xs # xss) ! (i * m + j) = concat xss ! (i' * m + j)"
      using Cons.prems by (simp add: nth_append)
    thus ?thesis using Cons Suc by simp
  qed
qed

lemma has_shape2_nth:
  "has_shape2 h w xs \<Longrightarrow> r < h \<Longrightarrow> length (xs ! r) = w"
  by (simp add: has_shape2_def list_all_length)

lemma has_shape2_concat:
  "has_shape2 h w xs \<Longrightarrow> length (concat xs) = h * w"
  "has_shape2 h w xs \<Longrightarrow> r < h \<Longrightarrow> q < w \<Longrightarrow> concat xs ! (r * w + q) = xs ! r ! q"
  using concat_rect_length[of w xs] concat_rect_nth[of w xs r q]
  by (auto simp: has_shape2_def)

lemma flatten3_shape:
  assumes "list_all (has_shape2 h w) y"
  shows "length (flatten3 y) = length y * (h * w)"
    and "n < length y \<Longrightarrow> r < h \<Longrightarrow> q < w \<Longrightarrow>
         flatten3 y ! (n * (h * w) + r * w + q) = y ! n ! r ! q"
proof -
  have rect: "list_all (\<lambda>xs. length xs = h * w) (map concat y)"
    using assms by (simp add: list_all_iff has_shape2_concat)
  show "length (flatten3 y) = length y * (h * w)"
    using concat_rect_length[OF rect] by (simp add: flatten3_def)
  assume n: "n < length y" and r: "r < h" and q: "q < w"
  have s: "has_shape2 h w (y ! n)" using assms n by (simp add: list_all_length)
  have "r * w + q < h * w"
  proof -
    have "r * w + q < r * w + w" using q by simp
    also have "\<dots> = Suc r * w" by simp
    also have "\<dots> \<le> h * w" using r by (intro mult_le_mono1) simp
    finally show ?thesis .
  qed
  hence "concat (map concat y) ! (n * (h * w) + (r * w + q)) = map concat y ! n ! (r * w + q)"
    using concat_rect_nth[OF rect, of n "r * w + q"] n by simp
  also have "\<dots> = y ! n ! r ! q" using n has_shape2_concat(2)[OF s r q] by simp
  finally show "flatten3 y ! (n * (h * w) + r * w + q) = y ! n ! r ! q"
    by (simp add: flatten3_def add.assoc)
qed

subsection \<open>Boolean masks\<close>

lemma mask_select_map:
  "length xs = length ys \<Longrightarrow>
   mask_select xs (map P ys) = map fst (filter (\<lambda>p. P (snd p)) (zip xs ys))"
proof (induction xs ys rule: list_induct2)
  case Nil show ?case by (simp add: mask_select_def)
next
  case (Cons x xs y ys)
  thus ?case by (simp add: mask_select_def)
qed

lemma mask_select_self: "mask_select ys (map P ys) = filter P ys"
  by (induction ys) (simp_all add: mask_select_def)

lemma mask_select_zip:
  "length xs = length ys \<Longrightarrow>
   zip (mask_select xs (map P ys)) (mask_select ys (map P ys)) =
     filter (\<lambda>p. P (snd p)) (zip xs ys)"
proof (induction xs ys rule: list_induct2)
  case Nil show ?case by (simp add: mask_select_def)
next
  case (Cons x xs y ys)
  thus ?case by (simp add: mask_select_def)
qed

lemma mask_select_length:
  "length xs = length ys \<Longrightarrow> length (mask_select xs (map P ys)) = length (filter P ys)"
proof (induction xs ys rule: list_induct2)
  case Nil show ?case by (simp add: mask_select_def)
next
  case (Cons x xs y ys)
  thus ?case by (simp add: mask_select_def)
qed

lemma filter_flatten3_length:
  "length (filter P (flatten3 y)) =
     sum_list (map (\<lambda>img. sum_list (map (\<lambda>row. length (filter P row)) img)) y)"
proof -
  have inner: "length (filter P (concat xss)) = sum_list (map (\<lambda>row. length (filter P row)) xss)"
    for xss by (induction xss) auto
  have "length (filter P (concat (map concat yy))) =
         sum_list (map (\<lambda>img. sum_list (map (\<lambda>row. length (filter P row)) img)) yy)" for yy
    by (induction yy) (auto simp: inner)
  thus ?thesis by (simp add: flatten3_def)
qed


subsection \<open>Alignment of features and labels\<close>

lemma wf_args_dim:
  assumes "wf_args a"
  shows "dim a = [dim a ! 0, dim a ! 0, dim a ! 2]" "0 < dim a ! 2" "dim a ! 1 = dim a ! 0"
  using assms by (auto simp: wf_args_def split: list.splits)

lemma wf_args_rev:
  assumes "wf_args a"
  shows "hd (rev (dim a)) = dim a ! 2" "prod_list (tl (rev (dim a))) = dim a ! 0 * dim a ! 0"
    "prod_list (butlast (dim a)) = dim a ! 0 * dim a ! 0"
  using assms by (auto simp: wf_args_def split: list.splits)

lemma suppress_has_shape2:
  "has_shape2 h w label \<Longrightarrow> has_shape2 h w (map (map f) (suppress a label))"
  by (simp add: has_shape2_def suppress_pointwise list_all_iff)

lemma wf_dataset_labels:
  assumes "wf_dataset a fe noise ds"
  shows "list_all (has_shape2 (dim a ! 0) (dim a ! 0))
           (map (\<lambda>x. map (map to_uint8) (suppress a (snd x))) ds)"
  using assms wf_args_dim(3)[of a]
  by (auto simp: wf_dataset_def list_all_iff suppress_has_shape2)

lemma wf_dataset_channel:
  assumes "wf_dataset a fe noise ds" "j < dim a ! 2"
  shows "list_all (has_shape2 (dim a ! 0) (dim a ! 0)) (map (\<lambda>x. fe (fst x) noise ! j) ds)"
  using assms wf_args_dim(3)[of a]
  by (auto simp: wf_dataset_def list_all_iff has_shape3_def list_all_length)

lemma flat_labels_shape:
  assumes wf: "wf_dataset a fe (prepare_data_noise randn a) ds"
  shows "length (flat_labels a randn fe ds) = length ds * (dim a ! 0 * dim a ! 0)"
    and "n < length ds \<Longrightarrow> r < dim a ! 0 \<Longrightarrow> q < dim a ! 0 \<Longrightarrow>
         flat_labels a randn fe ds ! (n * (dim a ! 0 * dim a ! 0) + r * dim a ! 0 + q) =
           to_uint8 (suppress a (snd (ds ! n)) ! r ! q)"
proof -
  note sh = wf_dataset_labels[OF wf]
  show "length (flat_labels a randn fe ds) = length ds * (dim a ! 0 * dim a ! 0)"
    using flatten3_shape(1)[OF sh] by (simp add: flat_labels_def prepare_loop_result)
  assume n: "n < length ds" and r: "r < dim a ! 0" and q: "q < dim a ! 0"
  have "has_shape2 (dim a ! 0) (dim a ! 0) (snd (ds ! n))"
    using wf n wf_args_dim(3)[of a] by (simp add: wf_dataset_def list_all_length)
  hence len: "r < length (suppress a (snd (ds ! n)))" "q < length (suppress a (snd (ds ! n)) ! r)"
    using r q suppress_shape[of a "snd (ds ! n)"] has_shape2_nth[of "dim a ! 0" "dim a ! 0" "snd (ds ! n)" r]
    by (simp_all add: has_shape2_def suppress_pointwise)
  have "flat_labels a randn fe ds ! (n * (dim a ! 0 * dim a ! 0) + r * dim a ! 0 + q) =
        map (\<lambda>x. map (map to_uint8) (suppress a (snd x))) ds ! n ! r ! q"
    using flatten3_shape(2)[OF sh, of n r q] n r q
    by (simp add: flat_labels_def prepare_loop_result)
  also have "\<dots> = to_uint8 (suppress a (snd (ds ! n)) ! r ! q)"
    using n len by simp
  finally show "flat_labels a randn fe ds ! (n * (dim a ! 0 * dim a ! 0) + r * dim a ! 0 + q) =
           to_uint8 (suppress a (snd (ds ! n)) ! r ! q)" .
qed

lemma flat_features_eq:
  assumes wf: "wf_dataset a fe (prepare_data_noise randn a) ds"
  shows "flat_features a randn fe ds =
           map (\<lambda>k. map (\<lambda>j. flatten3 (map (\<lambda>x. fe (fst x) (prepare_data_noise randn a) ! j) ds) ! k)
                      [0..<dim a ! 2])
               [0..<length ds * (dim a ! 0 * dim a ! 0)]"
proof -
  have wa: "wf_args a" using wf by (simp add: wf_dataset_def)
  show ?thesis
    unfolding flat_features_def Let_def prepare_loop_result wf_args_rev[OF wa]
    by (simp add: permute_10_def reshape_rows_def permute_1023_def flatten3_def comp_def)
qed

lemma flat_features_shape:
  assumes wf: "wf_dataset a fe (prepare_data_noise randn a) ds"
  shows "length (flat_features a randn fe ds) = length ds * (dim a ! 0 * dim a ! 0)"
    and "k < length ds * (dim a ! 0 * dim a ! 0) \<Longrightarrow>
         length (flat_features a randn fe ds ! k) = dim a ! 2"
    and "n < length ds \<Longrightarrow> r < dim a ! 0 \<Longrightarrow> q < dim a ! 0 \<Longrightarrow>
         flat_features a randn fe ds ! (n * (dim a ! 0 * dim a ! 0) + r * dim a ! 0 + q) =
           map (\<lambda>j. fe (fst (ds ! n)) (prepare_data_noise randn a) ! j ! r ! q) [0..<dim a ! 2]"
proof -
  show "length (flat_features a randn fe ds) = length ds * (dim a ! 0 * dim a ! 0)"
    by (simp add: flat_features_eq[OF wf])
  show "k < length ds * (dim a ! 0 * dim a ! 0) \<Longrightarrow>
         length (flat_features a randn fe ds ! k) = dim a ! 2"
    by (simp add: flat_features_eq[OF wf])
  assume n: "n < length ds" and r: "r < dim a ! 0" and q: "q < dim a ! 0"
  let ?S = "dim a ! 0" and ?k = "n * (dim a ! 0 * dim a ! 0) + r * dim a ! 0 + q"
  have "r * ?S + q < ?S * ?S"
  proof -
    have "r * ?S + q < Suc r * ?S" using q by simp
    also have "\<dots> \<le> ?S * ?S" using r by (intro mult_le_mono1) simp
    finally show ?thesis .
  qed
  moreover have "n * (?S * ?S) + ?S * ?S \<le> length ds * (?S * ?S)"
  proof -
    have "Suc n * (?S * ?S) \<le> length ds * (?S * ?S)" using n by (intro mult_le_mono1) simp
    thus ?thesis by simp
  qed
  ultimately have k: "?k < length ds * (?S * ?S)" by linarith
  have "flat_features a randn fe ds ! ?k =
        map (\<lambda>j. flatten3 (map (\<lambda>x. fe (fst x) (prepare_data_noise randn a) ! j) ds) ! ?k)
            [0..<dim a ! 2]"
    using k by (simp add: flat_features_eq[OF wf])
  also have "\<dots> = map (\<lambda>j. fe (fst (ds ! n)) (prepare_data_noise randn a) ! j ! r ! q) [0..<dim a ! 2]"
  proof (rule map_cong[OF refl])
    fix j assume "j \<in> set [0..<dim a ! 2]"
    hence j: "j < dim a ! 2" by simp
    show "flatten3 (map (\<lambda>x. fe (fst x) (prepare_data_noise randn a) ! j) ds) ! ?k =
          fe (fst (ds ! n)) (prepare_data_noise randn a) ! j ! r ! q"
      using flatten3_shape(2)[OF wf_dataset_channel[OF wf j], of n r q] n r q by simp
  qed
  finally show "flat_features a randn fe ds ! ?k =
           map (\<lambda>j. fe (fst (ds ! n)) (prepare_data_noise randn a) ! j ! r ! q) [0..<dim a ! 2]" .
qed

lemma prepare_data_zip:
  assumes wf: "wf_dataset a fe (prepare_data_noise randn a) ds"
  shows "zip (fst (prepare_data a randn fe ds)) (snd (prepare_data a randn fe ds)) =
           filter (\<lambda>p. uint (snd p) \<noteq> ignore_label a)
             (zip (flat_features a randn fe ds) (flat_labels a randn fe ds))"
  using mask_select_zip[of "flat_features a randn fe ds" "flat_labels a randn fe ds"
      "\<lambda>v. uint v \<noteq> ignore_label a"]
    flat_features_shape(1)[OF wf] flat_labels_shape(1)[OF wf]
  by (simp add: prepare_data_def keep_mask_def)

text \<open>
  C6. For a well-formed dataset of \<open>N\<close> images of \<open>S\<close> by \<open>S\<close> pixels with \<open>D\<close>
  feature channels: after the permute/reshape step the feature matrix has \<open>N * S * S\<close>
  rows of length \<open>D\<close> (the feature axis is last), the label vector has \<open>N * S * S\<close>
  entries, and for image \<open>n\<close>, row \<open>r\<close> and column \<open>q\<close> the row
  \<open>n * S * S + r * S + q\<close> of the matrix is the feature vector of that pixel while
  the entry of the label vector at the same index is the stored label of the same
  pixel (image-major, row-major in both). The returned pair, zipped, is the zipped
  flattened pair with the entries whose label equals the ignore label removed: a
  feature row and its label leave together.
\<close>

theorem flatten_alignment:
  assumes wf: "wf_dataset a fe (prepare_data_noise randn a) ds"
  shows "length (flat_features a randn fe ds) = length ds * (dim a ! 0 * dim a ! 0) \<and>
         length (flat_labels a randn fe ds) = length ds * (dim a ! 0 * dim a ! 0) \<and>
         (k < length ds * (dim a ! 0 * dim a ! 0) \<longrightarrow>
            length (flat_features a randn fe ds ! k) = dim a ! 2) \<and>
         (n < length ds \<and> r < dim a ! 0 \<and> q < dim a ! 0 \<longrightarrow>
            flat_features a randn fe ds ! (n * (dim a ! 0 * dim a ! 0) + r * dim a ! 0 + q) =
              map (\<lambda>j. fe (fst (ds ! n)) (prepare_data_noise randn a) ! j ! r ! q)
                [0..<dim a ! 2] \<and>
            flat_labels a randn fe ds ! (n * (dim a ! 0 * dim a ! 0) + r * dim a ! 0 + q) =
              to_uint8 (suppress a (snd (ds ! n)) ! r ! q)) \<and>
         zip (fst (prepare_data a randn fe ds)) (snd (prepare_data a randn fe ds)) =
           filter (\<lambda>p. uint (snd p) \<noteq> ignore_label a)
             (zip (flat_features a randn fe ds) (flat_labels a randn fe ds))"
  using flat_features_shape[OF wf] flat_labels_shape[OF wf] prepare_data_zip[OF wf]
  by blast

lemma demo_wf:
  "wf_dataset demo_opts demo_fe (prepare_data_noise demo_randn demo_opts) demo_dataset"
  by (simp add: wf_dataset_def wf_args_def demo_opts_def demo_dataset_def demo_label_def
      demo_label2_def has_shape2_def has_shape3_def demo_fe_def list_all_iff)

lemma demo_facts:
  "dim demo_opts ! 0 = 5" "dim demo_opts ! 2 = 2" "length demo_dataset = 2"
  "fst (demo_dataset ! 1) = 1" "snd (demo_dataset ! 1) = demo_label2"
  "fst (demo_dataset ! 0) = 0" "snd (demo_dataset ! 0) = demo_label"
  "ignore_label demo_opts = 255" "number_class demo_opts = 3"
  by (simp_all add: demo_opts_def demo_dataset_def)

lemma demo_fe_at:
  "map (\<lambda>j. demo_fe img noise ! j ! 4 ! 1) [0..<2] = [real (1000 * img + 41), real (1000 * img + 141)]"
proof -
  have "[0..<2] = [0, 1]" by (simp add: upt_rec)
  moreover have "[0..<5] ! 4 = 4" "[0..<5] ! 1 = 1" by simp_all
  ultimately show ?thesis by (simp add: demo_fe_def)
qed

lemma demo_suppress:
  "suppress demo_opts demo_label ! 4 ! 1 = 255"
  "suppress demo_opts demo_label2 ! 4 ! 1 = 2"
  by (simp_all add: suppress_pointwise sparse_class_def demo_label_def demo_label2_def
      count_label_def demo_opts_def)

theorem flatten_alignment_witness:
  "wf_dataset demo_opts demo_fe (prepare_data_noise demo_randn demo_opts) demo_dataset \<and>
   length (flat_features demo_opts demo_randn demo_fe demo_dataset) = 50 \<and>
   length (flat_labels demo_opts demo_randn demo_fe demo_dataset) = 50 \<and>
   length (flat_features demo_opts demo_randn demo_fe demo_dataset ! 46) = 2 \<and>
   flat_features demo_opts demo_randn demo_fe demo_dataset ! 46 = [1041, 1141] \<and>
   flat_labels demo_opts demo_randn demo_fe demo_dataset ! 46 = 2 \<and>
   zip (fst (prepare_data demo_opts demo_randn demo_fe demo_dataset))
       (snd (prepare_data demo_opts demo_randn demo_fe demo_dataset)) =
     filter (\<lambda>p. uint (snd p) \<noteq> 255)
       (zip (flat_features demo_opts demo_randn demo_fe demo_dataset)
            (flat_labels demo_opts demo_randn demo_fe demo_dataset))"
  using flatten_alignment[OF demo_wf, of 46 1 4 1] demo_wf
  unfolding demo_facts demo_fe_at demo_suppress
  by (simp add: to_uint8_def)

section \<open>Rows of the feature table and stored labels\<close>

lemma uint_to_uint8: "uint (to_uint8 v) = v mod 256"
  by (simp add: to_uint8_def uint_word_of_int take_bit_eq_mod)

lemma uint_to_uint8_range: "uint8_range v \<Longrightarrow> uint (to_uint8 v) = v"
  by (simp add: uint_to_uint8 uint8_range_def)

lemma suppress_range:
  assumes "uint8_range (ignore_label a)" "list_all (list_all uint8_range) label"
  shows "list_all (list_all uint8_range) (suppress a label)"
  using assms by (auto simp: suppress_pointwise list_all_iff)

lemma count_stored_eq:
  assumes "uint8_range (ignore_label a)" "list_all (list_all uint8_range) label"
  shows "count_stored_non_ignore a (suppress a label) = count_non_ignore a (suppress a label)"
proof -
  have r: "list_all (list_all uint8_range) (suppress a label)"
    using assms by (rule suppress_range)
  have "map (\<lambda>row. length (filter (\<lambda>v. uint (to_uint8 v) \<noteq> ignore_label a) row)) (suppress a label) =
        map (\<lambda>row. length (filter (\<lambda>v. v \<noteq> ignore_label a) row)) (suppress a label)"
  proof (rule map_cong[OF refl])
    fix row assume "row \<in> set (suppress a label)"
    hence "\<forall>v\<in>set row. uint8_range v" using r by (auto simp: list_all_iff)
    hence "filter (\<lambda>v. uint (to_uint8 v) \<noteq> ignore_label a) row =
           filter (\<lambda>v. v \<noteq> ignore_label a) row"
      by (intro filter_cong) (auto simp: uint_to_uint8_range)
    thus "length (filter (\<lambda>v. uint (to_uint8 v) \<noteq> ignore_label a) row) =
          length (filter (\<lambda>v. v \<noteq> ignore_label a) row)" by simp
  qed
  thus ?thesis
    unfolding count_stored_non_ignore_def count_non_ignore_def by (rule arg_cong)
qed

lemma kept_labels_length:
  "length (filter (\<lambda>l. uint l \<noteq> ignore_label a) (flat_labels a randn fe ds)) =
     sum_list (map (\<lambda>x. count_stored_non_ignore a (suppress a (snd x))) ds)"
  by (simp add: flat_labels_def prepare_loop_result filter_flatten3_length comp_def
      count_stored_non_ignore_def filter_map)

lemma prepare_data_lengths:
  assumes wf: "wf_dataset a fe (prepare_data_noise randn a) ds"
  shows "length (fst (prepare_data a randn fe ds)) =
           sum_list (map (\<lambda>x. count_stored_non_ignore a (suppress a (snd x))) ds)"
    and "length (snd (prepare_data a randn fe ds)) =
           sum_list (map (\<lambda>x. count_stored_non_ignore a (suppress a (snd x))) ds)"
proof -
  have len: "length (flat_features a randn fe ds) = length (flat_labels a randn fe ds)"
    using flat_features_shape(1)[OF wf] flat_labels_shape(1)[OF wf] by simp
  show "length (fst (prepare_data a randn fe ds)) =
           sum_list (map (\<lambda>x. count_stored_non_ignore a (suppress a (snd x))) ds)"
    using mask_select_length[OF len, of "\<lambda>v. uint v \<noteq> ignore_label a"]
    by (simp add: prepare_data_def keep_mask_def kept_labels_length)
  show "length (snd (prepare_data a randn fe ds)) =
           sum_list (map (\<lambda>x. count_stored_non_ignore a (suppress a (snd x))) ds)"
    by (simp add: prepare_data_def keep_mask_def mask_select_self kept_labels_length)
qed

text \<open>
  C2, as amended. For a well-formed dataset and an ignore label in the range of
  \<^verbatim>\<open>uint8\<close>, \<^verbatim>\<open>prepare_data\<close> returns exactly the rows of the flattened table
  whose stored label differs from the ignore label, features and labels alike; both
  returned parts have as many rows as the images have pixels whose label, after
  suppression and as stored, differs from the ignore label; no returned label equals
  the ignore label. When moreover all labels of the dataset are in the range of
  \<^verbatim>\<open>uint8\<close>, both returned parts have as many rows as the images have pixels
  whose label after suppression differs from the ignore label.
\<close>

theorem feature_table_rows:
  assumes wf: "wf_dataset a fe (prepare_data_noise randn a) ds"
    and ig: "uint8_range (ignore_label a)"
  shows "snd (prepare_data a randn fe ds) =
           filter (\<lambda>l. uint l \<noteq> ignore_label a) (flat_labels a randn fe ds) \<and>
         fst (prepare_data a randn fe ds) =
           map fst (filter (\<lambda>p. uint (snd p) \<noteq> ignore_label a)
             (zip (flat_features a randn fe ds) (flat_labels a randn fe ds))) \<and>
         length (fst (prepare_data a randn fe ds)) =
           sum_list (map (\<lambda>x. count_stored_non_ignore a (suppress a (snd x))) ds) \<and>
         length (snd (prepare_data a randn fe ds)) =
           sum_list (map (\<lambda>x. count_stored_non_ignore a (suppress a (snd x))) ds) \<and>
         list_all (\<lambda>l. uint l \<noteq> ignore_label a) (snd (prepare_data a randn fe ds)) \<and>
         (list_all (\<lambda>x. list_all (list_all uint8_range) (snd x)) ds \<longrightarrow>
            length (fst (prepare_data a randn fe ds)) =
              sum_list (map (\<lambda>x. count_non_ignore a (suppress a (snd x))) ds) \<and>
            length (snd (prepare_data a randn fe ds)) =
              sum_list (map (\<lambda>x. count_non_ignore a (suppress a (snd x))) ds))"
proof -
  have len: "length (flat_features a randn fe ds) = length (flat_labels a randn fe ds)"
    using flat_features_shape(1)[OF wf] flat_labels_shape(1)[OF wf] by simp
  have 1: "snd (prepare_data a randn fe ds) =
           filter (\<lambda>l. uint l \<noteq> ignore_label a) (flat_labels a randn fe ds)"
    by (simp add: prepare_data_def keep_mask_def mask_select_self)
  have 2: "fst (prepare_data a randn fe ds) =
           map fst (filter (\<lambda>p. uint (snd p) \<noteq> ignore_label a)
             (zip (flat_features a randn fe ds) (flat_labels a randn fe ds)))"
    using mask_select_map[OF len, of "\<lambda>v. uint v \<noteq> ignore_label a"]
    by (simp add: prepare_data_def keep_mask_def)
  note 3 = prepare_data_lengths(1)[OF wf] and 4 = prepare_data_lengths(2)[OF wf]
  have 5: "list_all (\<lambda>l. uint l \<noteq> ignore_label a) (snd (prepare_data a randn fe ds))"
    unfolding 1 by (simp add: list_all_iff)
  have 6: "list_all (\<lambda>x. list_all (list_all uint8_range) (snd x)) ds \<longrightarrow>
            length (fst (prepare_data a randn fe ds)) =
              sum_list (map (\<lambda>x. count_non_ignore a (suppress a (snd x))) ds) \<and>
            length (snd (prepare_data a randn fe ds)) =
              sum_list (map (\<lambda>x. count_non_ignore a (suppress a (snd x))) ds)"
  proof
    assume r: "list_all (\<lambda>x. list_all (list_all uint8_range) (snd x)) ds"
    have "map (\<lambda>x. count_stored_non_ignore a (suppress a (snd x))) ds =
          map (\<lambda>x. count_non_ignore a (suppress a (snd x))) ds"
    proof (rule map_cong[OF refl])
      fix x assume "x \<in> set ds"
      hence "list_all (list_all uint8_range) (snd x)" using r by (simp add: list_all_iff)
      thus "count_stored_non_ignore a (suppress a (snd x)) = count_non_ignore a (suppress a (snd x))"
        using ig by (intro count_stored_eq)
    qed
    hence "sum_list (map (\<lambda>x. count_stored_non_ignore a (suppress a (snd x))) ds) =
            sum_list (map (\<lambda>x. count_non_ignore a (suppress a (snd x))) ds)"
      by (rule arg_cong)
    thus "length (fst (prepare_data a randn fe ds)) =
              sum_list (map (\<lambda>x. count_non_ignore a (suppress a (snd x))) ds) \<and>
            length (snd (prepare_data a randn fe ds)) =
              sum_list (map (\<lambda>x. count_non_ignore a (suppress a (snd x))) ds)"
      using 3 4 by simp
  qed
  from 1 2 3 4 5 6 show ?thesis by blast
qed

lemma demo_range:
  "uint8_range (ignore_label demo_opts)"
  "list_all (\<lambda>x. list_all (list_all uint8_range) (snd x)) demo_dataset"
  by (simp_all add: uint8_range_def demo_opts_def demo_dataset_def demo_label_def demo_label2_def)

lemma demo_counts:
  "sum_list (map (\<lambda>x. count_non_ignore demo_opts (suppress demo_opts (snd x))) demo_dataset) = 43"
  by (simp add: suppress_pointwise sparse_class_def demo_label_def demo_label2_def
      count_label_def demo_opts_def demo_dataset_def count_non_ignore_def)

theorem feature_table_rows_witness:
  "wf_dataset demo_opts demo_fe (prepare_data_noise demo_randn demo_opts) demo_dataset \<and>
   uint8_range (ignore_label demo_opts) \<and>
   list_all (\<lambda>x. list_all (list_all uint8_range) (snd x)) demo_dataset \<and>
   sum_list (map (\<lambda>x. count_non_ignore demo_opts (suppress demo_opts (snd x))) demo_dataset) = 43 \<and>
   length (fst (prepare_data demo_opts demo_randn demo_fe demo_dataset)) = 43 \<and>
   length (snd (prepare_data demo_opts demo_randn demo_fe demo_dataset)) = 43 \<and>
   list_all (\<lambda>l. uint l \<noteq> ignore_label demo_opts)
     (snd (prepare_data demo_opts demo_randn demo_fe demo_dataset))"
proof -
  note t = feature_table_rows[OF demo_wf demo_range(1)]
  from t demo_range(2) have
    "length (fst (prepare_data demo_opts demo_randn demo_fe demo_dataset)) =
       sum_list (map (\<lambda>x. count_non_ignore demo_opts (suppress demo_opts (snd x))) demo_dataset)"
    "length (snd (prepare_data demo_opts demo_randn demo_fe demo_dataset)) =
       sum_list (map (\<lambda>x. count_non_ignore demo_opts (suppress demo_opts (snd x))) demo_dataset)"
    "list_all (\<lambda>l. uint l \<noteq> ignore_label demo_opts)
       (snd (prepare_data demo_opts demo_randn demo_fe demo_dataset))"
    by blast+
  thus ?thesis unfolding demo_counts using demo_wf demo_range by blast
qed

lemma wide_wf:
  "wf_dataset demo_opts demo_fe (prepare_data_noise demo_randn demo_opts) wide_dataset"
  by (simp add: wf_dataset_def wf_args_def demo_opts_def wide_dataset_def wide_label_def
      has_shape2_def has_shape3_def demo_fe_def list_all_iff)

lemma high_wf:
  "wf_dataset many_class_opts demo_fe (prepare_data_noise demo_randn many_class_opts) high_dataset"
  by (simp add: wf_dataset_def wf_args_def many_class_opts_def demo_opts_def high_dataset_def
      high_label_def has_shape2_def has_shape3_def demo_fe_def list_all_iff)

lemma high_suppress: "suppress many_class_opts high_label = high_label"
proof -
  have "count_label high_label 511 = 25"
    by (simp add: high_label_def count_label_def)
  hence "\<not> sparse_class many_class_opts high_label 511"
    by (simp add: sparse_class_def)
  thus ?thesis
    by (simp add: suppress_pointwise high_label_def)
qed

lemma wide_suppress: "suppress demo_opts wide_label = wide_label"
  by (simp add: suppress_pointwise sparse_class_def wide_label_def demo_opts_def count_label_def)

text \<open>
  C2 as stated, for every training dataset, fails for labels outside the range of
  \<^verbatim>\<open>uint8\<close>. With 512 classes and ignore label 255, an image whose 25 pixels all
  have the class index 511 keeps its labels under suppression, none of them is the
  ignore label, and yet \<^verbatim>\<open>prepare_data\<close> returns no row: 511 is stored as 255.
  Likewise the image with one label 511 and 24 labels 0 gives 24 rows for 25 pixels
  whose label differs from the ignore label.
\<close>

theorem feature_table_rows_counterexample:
  "wf_dataset many_class_opts demo_fe (prepare_data_noise demo_randn many_class_opts) high_dataset \<and>
   number_class many_class_opts = 512 \<and> ignore_label many_class_opts = 255 \<and>
   sum_list (map (\<lambda>x. count_non_ignore many_class_opts (suppress many_class_opts (snd x)))
     high_dataset) = 25 \<and>
   length (fst (prepare_data many_class_opts demo_randn demo_fe high_dataset)) = 0 \<and>
   length (snd (prepare_data many_class_opts demo_randn demo_fe high_dataset)) = 0 \<and>
   wf_dataset demo_opts demo_fe (prepare_data_noise demo_randn demo_opts) wide_dataset \<and>
   sum_list (map (\<lambda>x. count_non_ignore demo_opts (suppress demo_opts (snd x))) wide_dataset) = 25 \<and>
   length (fst (prepare_data demo_opts demo_randn demo_fe wide_dataset)) = 24 \<and>
   length (snd (prepare_data demo_opts demo_randn demo_fe wide_dataset)) = 24"
proof -
  have o: "number_class many_class_opts = 512" "ignore_label many_class_opts = 255"
    "ignore_label demo_opts = 255"
    by (simp_all add: many_class_opts_def demo_opts_def)
  have hc: "count_non_ignore many_class_opts high_label = 25"
    "count_stored_non_ignore many_class_opts high_label = 0"
    by (simp_all add: count_non_ignore_def count_stored_non_ignore_def o high_label_def
        uint_to_uint8)
  have h1: "sum_list (map (\<lambda>x. count_non_ignore many_class_opts
              (suppress many_class_opts (snd x))) high_dataset) = 25"
    by (simp add: high_dataset_def high_suppress hc)
  have h2: "sum_list (map (\<lambda>x. count_stored_non_ignore many_class_opts
              (suppress many_class_opts (snd x))) high_dataset) = 0"
    by (simp add: high_dataset_def high_suppress hc)
  have wc: "count_non_ignore demo_opts wide_label = 25"
    "count_stored_non_ignore demo_opts wide_label = 24"
    by (simp_all add: count_non_ignore_def count_stored_non_ignore_def o wide_label_def
        uint_to_uint8)
  have w1: "sum_list (map (\<lambda>x. count_non_ignore demo_opts (suppress demo_opts (snd x)))
              wide_dataset) = 25"
    by (simp add: wide_dataset_def wide_suppress wc)
  have w2: "sum_list (map (\<lambda>x. count_stored_non_ignore demo_opts (suppress demo_opts (snd x)))
              wide_dataset) = 24"
    by (simp add: wide_dataset_def wide_suppress wc)
  show ?thesis
    using high_wf wide_wf o(1,2) h1 w1
    unfolding prepare_data_lengths[OF high_wf] prepare_data_lengths[OF wide_wf] h2 w2
    by simp
qed

text \<open>
  C10. The label accumulator holds 8-bit unsigned integers: a label value is stored
  modulo 256; values from 0 to 255 are stored exactly; a value above 255 is stored as
  a different value. In \<^verbatim>\<open>prepare_data\<close> the entry of the flattened label vector for
  a pixel is its label after suppression, reduced in this way, and the mask that
  filters the ignore label compares the reduced value.
\<close>

theorem uint8_label_storage:
  "uint (to_uint8 v) = v mod 256 \<and>
   (0 \<le> u \<and> u \<le> 255 \<longrightarrow> uint (to_uint8 u) = u) \<and>
   (255 < w \<longrightarrow> uint (to_uint8 w) \<noteq> w \<and> uint (to_uint8 w) = w mod 256) \<and>
   (wf_dataset a fe (prepare_data_noise randn a) ds \<and>
    n < length ds \<and> r < dim a ! 0 \<and> q < dim a ! 0 \<longrightarrow>
      flat_labels a randn fe ds ! (n * (dim a ! 0 * dim a ! 0) + r * dim a ! 0 + q) =
        to_uint8 (suppress a (snd (ds ! n)) ! r ! q) \<and>
      keep_mask a randn fe ds ! (n * (dim a ! 0 * dim a ! 0) + r * dim a ! 0 + q) =
        (suppress a (snd (ds ! n)) ! r ! q mod 256 \<noteq> ignore_label a))"
proof -
  have 1: "0 \<le> u \<and> u \<le> 255 \<longrightarrow> uint (to_uint8 u) = u"
    by (simp add: uint_to_uint8)
  have 2: "255 < w \<longrightarrow> uint (to_uint8 w) \<noteq> w \<and> uint (to_uint8 w) = w mod 256"
  proof
    assume "255 < w"
    moreover have "w mod 256 < 256" by simp
    ultimately show "uint (to_uint8 w) \<noteq> w \<and> uint (to_uint8 w) = w mod 256"
      by (simp add: uint_to_uint8)
  qed
  have 3: "wf_dataset a fe (prepare_data_noise randn a) ds \<and>
    n < length ds \<and> r < dim a ! 0 \<and> q < dim a ! 0 \<longrightarrow>
      flat_labels a randn fe ds ! (n * (dim a ! 0 * dim a ! 0) + r * dim a ! 0 + q) =
        to_uint8 (suppress a (snd (ds ! n)) ! r ! q) \<and>
      keep_mask a randn fe ds ! (n * (dim a ! 0 * dim a ! 0) + r * dim a ! 0 + q) =
        (suppress a (snd (ds ! n)) ! r ! q mod 256 \<noteq> ignore_label a)"
  proof
    assume h: "wf_dataset a fe (prepare_data_noise randn a) ds \<and>
      n < length ds \<and> r < dim a ! 0 \<and> q < dim a ! 0"
    let ?S = "dim a ! 0" and ?k = "n * (dim a ! 0 * dim a ! 0) + r * dim a ! 0 + q"
    have fl: "flat_labels a randn fe ds ! ?k = to_uint8 (suppress a (snd (ds ! n)) ! r ! q)"
      using flat_labels_shape(2)[of a fe randn ds n r q] h by simp
    have "r * ?S + q < ?S * ?S"
    proof -
      have "r * ?S + q < Suc r * ?S" using h by simp
      also have "\<dots> \<le> ?S * ?S" using h by (intro mult_le_mono1) simp
      finally show ?thesis .
    qed
    moreover have "n * (?S * ?S) + ?S * ?S \<le> length ds * (?S * ?S)"
    proof -
      have "Suc n * (?S * ?S) \<le> length ds * (?S * ?S)" using h by (intro mult_le_mono1) simp
      thus ?thesis by simp
    qed
    ultimately have "?k < length (flat_labels a randn fe ds)"
      using flat_labels_shape(1)[of a fe randn ds] h by simp
    hence "keep_mask a randn fe ds ! ?k = (uint (flat_labels a randn fe ds ! ?k) \<noteq> ignore_label a)"
      by (simp add: keep_mask_def)
    with fl show "flat_labels a randn fe ds ! ?k = to_uint8 (suppress a (snd (ds ! n)) ! r ! q) \<and>
      keep_mask a randn fe ds ! ?k = (suppress a (snd (ds ! n)) ! r ! q mod 256 \<noteq> ignore_label a)"
      by (simp add: uint_to_uint8)
  qed
  from 1 2 3 show ?thesis by (simp add: uint_to_uint8)
qed

lemma wide_facts:
  "length wide_dataset = 1" "snd (wide_dataset ! 0) = wide_label"
  "suppress demo_opts wide_label ! 0 ! 0 = 511"
  by (simp_all add: wide_dataset_def suppress_pointwise sparse_class_def wide_label_def
      demo_opts_def)

theorem uint8_label_storage_witness:
  "uint (to_uint8 255) = 255 \<and>
   uint (to_uint8 511) \<noteq> 511 \<and> uint (to_uint8 511) = 255 \<and>
   wf_dataset demo_opts demo_fe (prepare_data_noise demo_randn demo_opts) wide_dataset \<and>
   suppress demo_opts (snd (wide_dataset ! 0)) ! 0 ! 0 = 511 \<and>
   flat_labels demo_opts demo_randn demo_fe wide_dataset ! 0 = 255 \<and>
   keep_mask demo_opts demo_randn demo_fe wide_dataset ! 0 = False"
  using uint8_label_storage[of 511 255 511 demo_opts demo_fe demo_randn wide_dataset 0 0 0]
    wide_wf
  unfolding wide_facts demo_facts
  by (simp add: to_uint8_def)

section \<open>Evaluation, shared noise and the scope of suppression\<close>

lemma evaluation_row_simps:
  "gts (evaluation_row a fe predict noise st (img, label)) = gts st @ [label]"
  "preds (evaluation_row a fe predict noise st (img, label)) =
     preds st @ [fst (predict (eval_input a (fe img noise)))]"
  "uncertainty_scores (evaluation_row a fe predict noise st (img, label)) =
     uncertainty_scores st @ [snd (predict (eval_input a (fe img noise)))]"
  "eval_noise (evaluation_row a fe predict noise st (img, label)) = eval_noise st @ [noise]"
  by (simp_all add: evaluation_row_def Let_def split: prod.splits)

lemma evaluation_foldl:
  "gts (foldl (evaluation_row a fe predict noise) st ds) = gts st @ map snd ds \<and>
   preds (foldl (evaluation_row a fe predict noise) st ds) =
     preds st @ map (\<lambda>x. fst (predict (eval_input a (fe (fst x) noise)))) ds \<and>
   uncertainty_scores (foldl (evaluation_row a fe predict noise) st ds) =
     uncertainty_scores st @ map (\<lambda>x. snd (predict (eval_input a (fe (fst x) noise)))) ds \<and>
   eval_noise (foldl (evaluation_row a fe predict noise) st ds) =
     eval_noise st @ replicate (length ds) noise"
proof (induction ds arbitrary: st)
  case Nil show ?case by simp
next
  case (Cons x ds)
  obtain img label where x: "x = (img, label)" by (cases x)
  show ?case
    using Cons.IH[of "evaluation_row a fe predict noise st (img, label)"]
    by (simp add: x evaluation_row_simps replicate_app_Cons_same)
qed

lemma evaluation_loop_result:
  "gts (evaluation_loop a randn fe predict ds) = map snd ds"
  "preds (evaluation_loop a randn fe predict ds) =
     map (\<lambda>x. fst (predict (eval_input a (fe (fst x) (evaluation_noise randn a))))) ds"
  "uncertainty_scores (evaluation_loop a randn fe predict ds) =
     map (\<lambda>x. snd (predict (eval_input a (fe (fst x) (evaluation_noise randn a))))) ds"
  "eval_noise (evaluation_loop a randn fe predict ds) =
     replicate (length ds) (evaluation_noise randn a)"
  using evaluation_foldl[of a fe predict "evaluation_noise randn a" eval_init ds]
  by (simp_all add: evaluation_loop_def eval_init_def)

text \<open>
  C9. The mean uncertainty that \<^verbatim>\<open>evaluation\<close> reports is the sum of the scores
  of the images divided by their number: on a test set without images the division
  raises \<^verbatim>\<open>ZeroDivisionError\<close>; on a test set with at least one image the function
  returns, with the metric of the predictions and the ground truth and the arithmetic
  mean of the scores of the images.
\<close>

theorem evaluation_mean_uncertainty:
  "evaluation a randn fe predict ciou [] = Inl ZeroDivisionError \<and>
   (ds \<noteq> [] \<longrightarrow>
      evaluation a randn fe predict ciou ds =
        Inr (ciou (map (\<lambda>x. fst (predict (eval_input a (fe (fst x) (evaluation_noise randn a))))) ds)
                  (map snd ds),
             sum_list (map (\<lambda>x. snd (predict (eval_input a (fe (fst x) (evaluation_noise randn a))))) ds)
               / real (length ds)))"
  by (simp add: evaluation_def Let_def evaluation_loop_result)

theorem evaluation_mean_uncertainty_witness:
  "evaluation resume_opts demo_randn scenario_fe scenario_predict class1_pixels [] =
     Inl ZeroDivisionError \<and>
   scenario_dataset \<noteq> [] \<and>
   evaluation resume_opts demo_randn scenario_fe scenario_predict class1_pixels scenario_dataset =
     Inr (10, 1 / 2)"
proof -
  have c: "class1_pixels ps (map snd scenario_dataset) = 10" for ps
    by (simp add: class1_pixels_def scenario_dataset_def scenario_label_def count_label_def)
  have n: "scenario_dataset \<noteq> []" "length scenario_dataset = 2"
    by (simp_all add: scenario_dataset_def)
  have s: "sum_list (map (\<lambda>x. snd (scenario_predict (eval_input resume_opts
             (scenario_fe (fst x) (evaluation_noise demo_randn resume_opts))))) scenario_dataset) = 1"
    by (simp add: scenario_predict_def scenario_dataset_def)
  from evaluation_mean_uncertainty[of resume_opts demo_randn scenario_fe scenario_predict
      class1_pixels scenario_dataset]
  show ?thesis unfolding c s n(2) using n(1) by simp
qed



lemma scenario_wf:
  "wf_dataset resume_opts scenario_fe (prepare_data_noise demo_randn resume_opts) scenario_dataset"
  by (simp add: wf_dataset_def wf_args_def resume_opts_def scenario_dataset_def scenario_label_def
      has_shape2_def has_shape3_def scenario_fe_def list_all_iff)

lemma scenario_facts:
  "dim resume_opts ! 0 = 4" "length scenario_dataset = 2"
  "snd (scenario_dataset ! 0) = scenario_label"
  "ignore_label resume_opts = 255" "number_class resume_opts = 3"
  "scenario_label ! 3 ! 0 = 1" "count_label scenario_label 1 = 5"
  "map snd scenario_dataset = [scenario_label, scenario_label]"
  by (simp_all add: resume_opts_def scenario_dataset_def scenario_label_def count_label_def)

lemma scenario_suppressed:
  "suppress resume_opts scenario_label = replicate 4 (replicate 4 255)"
  by (simp add: suppress_pointwise sparse_class_def scenario_label_def count_label_def
      resume_opts_def numeral_eq_Suc)

text \<open>
  C5, as amended. In \<^verbatim>\<open>prepare_data\<close>, a pixel whose class is a class index other
  than the ignore label with more than 0 and fewer than 20 pixels in its image
  carries the ignore label after suppression, is stored as the ignore label, and is
  masked out of the returned feature table and label vector. \<^verbatim>\<open>evaluation\<close> does not
  suppress: the ground truth it collects for the metric is the label maps of the test
  set as they are.
\<close>

theorem suppressed_pixels_excluded:
  assumes wf: "wf_dataset a fe (prepare_data_noise randn a) ds"
    and ig: "uint8_range (ignore_label a)"
    and px: "n < length ds" "r < dim a ! 0" "q < dim a ! 0"
    and c: "snd (ds ! n) ! r ! q = c" "0 \<le> c" "c < number_class a" "c \<noteq> ignore_label a"
    and sp: "0 < count_label (snd (ds ! n)) c" "count_label (snd (ds ! n)) c < 20"
  shows "suppress a (snd (ds ! n)) ! r ! q = ignore_label a \<and>
         uint (flat_labels a randn fe ds ! (n * (dim a ! 0 * dim a ! 0) + r * dim a ! 0 + q)) =
           ignore_label a \<and>
         keep_mask a randn fe ds ! (n * (dim a ! 0 * dim a ! 0) + r * dim a ! 0 + q) = False \<and>
         prepare_data a randn fe ds =
           (mask_select (flat_features a randn fe ds) (keep_mask a randn fe ds),
            mask_select (flat_labels a randn fe ds) (keep_mask a randn fe ds)) \<and>
         gts (evaluation_loop a randn' fe' predict ds') = map snd ds'"
proof -
  let ?S = "dim a ! 0" and ?k = "n * (dim a ! 0 * dim a ! 0) + r * dim a ! 0 + q"
  have sh: "has_shape2 ?S ?S (snd (ds ! n))"
    using wf px(1) wf_args_dim(3)[of a] by (simp add: wf_dataset_def list_all_length)
  hence len: "r < length (snd (ds ! n))" "q < length (snd (ds ! n) ! r)"
    using px has_shape2_nth[OF sh, of r] by (simp_all add: has_shape2_def)
  have 1: "suppress a (snd (ds ! n)) ! r ! q = ignore_label a"
    using suppress_nth[OF len, of a] c sp by (simp add: sparse_class_def)
  have fl: "flat_labels a randn fe ds ! ?k = to_uint8 (ignore_label a)"
    using flat_labels_shape(2)[OF wf px] 1 by simp
  hence 2: "uint (flat_labels a randn fe ds ! ?k) = ignore_label a"
    using ig by (simp add: uint_to_uint8_range)
  have "r * ?S + q < ?S * ?S"
  proof -
    have "r * ?S + q < Suc r * ?S" using px by simp
    also have "\<dots> \<le> ?S * ?S" using px by (intro mult_le_mono1) simp
    finally show ?thesis .
  qed
  moreover have "n * (?S * ?S) + ?S * ?S \<le> length ds * (?S * ?S)"
  proof -
    have "Suc n * (?S * ?S) \<le> length ds * (?S * ?S)" using px by (intro mult_le_mono1) simp
    thus ?thesis by simp
  qed
  ultimately have "?k < length (flat_labels a randn fe ds)"
    using flat_labels_shape(1)[OF wf] by simp
  hence 3: "keep_mask a randn fe ds ! ?k = False"
    using 2 by (simp add: keep_mask_def)
  from 1 2 3 show ?thesis
    by (simp add: prepare_data_def evaluation_loop_result)
qed

theorem suppressed_pixels_excluded_witness:
  "wf_dataset resume_opts scenario_fe (prepare_data_noise demo_randn resume_opts) scenario_dataset \<and>
   uint8_range (ignore_label resume_opts) \<and>
   scenario_label ! 3 ! 0 = 1 \<and> count_label scenario_label 1 = 5 \<and>
   suppress resume_opts scenario_label ! 3 ! 0 = 255 \<and>
   uint (flat_labels resume_opts demo_randn scenario_fe scenario_dataset ! 12) = 255 \<and>
   keep_mask resume_opts demo_randn scenario_fe scenario_dataset ! 12 = False \<and>
   prepare_data resume_opts demo_randn scenario_fe scenario_dataset = ([], []) \<and>
   gts (evaluation_loop resume_opts demo_randn scenario_fe scenario_predict scenario_dataset) =
     [scenario_label, scenario_label]"
proof -
  have e: "prepare_data resume_opts demo_randn scenario_fe scenario_dataset = ([], [])"
    by code_simp
  have ig: "uint8_range (ignore_label resume_opts)"
    by (simp add: uint8_range_def resume_opts_def)
  have h: "(0::nat) < length scenario_dataset" "3 < dim resume_opts ! 0" "0 < dim resume_opts ! 0"
    "snd (scenario_dataset ! 0) ! 3 ! 0 = 1" "(0::int) \<le> 1" "1 < number_class resume_opts"
    "1 \<noteq> ignore_label resume_opts" "0 < count_label (snd (scenario_dataset ! 0)) 1"
    "count_label (snd (scenario_dataset ! 0)) 1 < 20"
    by (simp_all add: scenario_facts)
  from suppressed_pixels_excluded[OF scenario_wf ig h,
      of demo_randn scenario_fe scenario_predict scenario_dataset]
  show ?thesis
    using scenario_wf ig e by (simp add: scenario_facts)
qed

text \<open>
  C5 as stated fails for the evaluation: in the scenario the ground truth collected for
  the metric is the two label maps unchanged, with the 5 pixels of class 1 in each,
  where suppression would leave none; the metric function is handed all 10 of them.
\<close>

theorem evaluation_unsuppressed_counterexample:
  "gts (evaluation_loop resume_opts demo_randn scenario_fe scenario_predict scenario_dataset) =
     [scenario_label, scenario_label] \<and>
   count_label scenario_label 1 = 5 \<and>
   count_label (suppress resume_opts scenario_label) 1 = 0 \<and>
   evaluation resume_opts demo_randn scenario_fe scenario_predict class1_pixels scenario_dataset =
     Inr (10, 1 / 2)"
proof -
  have "count_label (suppress resume_opts scenario_label) 1 = 0"
    by (simp add: scenario_suppressed count_label_def numeral_eq_Suc)
  moreover have "class1_pixels ps [scenario_label, scenario_label] = 10" for ps
    by (simp add: class1_pixels_def scenario_facts)
  ultimately show ?thesis
    by (simp add: evaluation_def Let_def evaluation_loop_result scenario_facts
        scenario_predict_def scenario_dataset_def)
qed

end
